theory Spec2Isabelle
  imports Main "HOL-Library.AList"
begin

section \<open>The parsed document and the path queries of the notebook\<close>

text \<open>
  The notebook \<^verbatim>\<open>persistence.ipynb\<close> reads saved HTML pages, selects a table by its
  position among all tables of the page, walks over the rows of the table and writes
  two or three text fields of every row to a JSON file, a CSV file or a SQLite table.

  The markup parser is a capability of the platform; the model starts from the parsed
  tree. A node is an element with a tag and children, or a text node. A \<open>char\<close> of a
  text stands for one code point below 256.
\<close>

datatype node = Element string "node list" | TextNode string

text \<open>The exceptions the cells can meet.\<close>

datatype error = IndexError | AttributeError | OperationalError | ProgrammingError

fun children :: "node \<Rightarrow> node list" where
  "children (Element t cs) = cs"
| "children (TextNode s) = []"

fun has_tag :: "string \<Rightarrow> node \<Rightarrow> bool" where
  "has_tag t (Element t' cs) = (t = t')"
| "has_tag t (TextNode s) = False"

text \<open>One step \<^verbatim>\<open>child::t\<close> from a single node: its element children named \<open>t\<close>,
  in document order.\<close>

definition child_step :: "string \<Rightarrow> node \<Rightarrow> node list" where
  "child_step t n = filter (has_tag t) (children n)"

text \<open>\<^verbatim>\<open>sel.xpath('a/b')\<close> on a list of selected nodes: the steps are taken from every
  node in turn and the results are concatenated, which for child steps is document
  order without repetition.\<close>

fun xpath :: "string list \<Rightarrow> node list \<Rightarrow> node list" where
  "xpath [] ns = ns"
| "xpath (t # ts) ns = xpath ts (concat (map (child_step t) ns))"

text \<open>The last step \<^verbatim>\<open>text()\<close> followed by \<^verbatim>\<open>.extract()\<close>: the strings of the
  text children.\<close>

fun text_of :: "node \<Rightarrow> string list" where
  "text_of (TextNode s) = [s]"
| "text_of (Element t cs) = []"

definition extract_text :: "string list \<Rightarrow> node \<Rightarrow> string list" where
  "extract_text ts n = concat (map text_of (concat (map children (xpath ts [n]))))"

text \<open>\<^verbatim>\<open>//table\<close>: every element named \<open>table\<close> of the document, in document order.\<close>

fun descendant_or_self :: "node \<Rightarrow> node list" where
  "descendant_or_self (TextNode s) = [TextNode s]"
| "descendant_or_self (Element t cs) = Element t cs # concat (map descendant_or_self cs)"

definition all_tables :: "node \<Rightarrow> node list" where
  "all_tables doc = filter (has_tag ''table'') (descendant_or_self doc)"

text \<open>Python's \<^verbatim>\<open>xs[i]\<close> for \<open>i \<ge> 0\<close>: IndexError out of range.\<close>

definition index :: "'a list \<Rightarrow> nat \<Rightarrow> error + 'a" where
  "index xs i = (if i < length xs then Inr (xs ! i) else Inl IndexError)"

text \<open>\<^verbatim>\<open>.extract_first()\<close>: the first string, or \<^verbatim>\<open>None\<close>.\<close>

definition extract_first :: "string list \<Rightarrow> string option" where
  "extract_first xs = (case xs of [] \<Rightarrow> None | x # _ \<Rightarrow> Some x)"

text \<open>\<^verbatim>\<open>str.strip()\<close>: leading and trailing white space removed. The white space
  of Python below code point 256.\<close>

definition isspace :: "char \<Rightarrow> bool" where
  "isspace c = (of_char c \<in> {9, 10, 11, 12, 13, 28, 29, 30, 31, 32, 133, 160 :: nat})"

definition strip :: "string \<Rightarrow> string" where
  "strip s = rev (dropWhile isspace (rev (dropWhile isspace s)))"

text \<open>\<^verbatim>\<open>response.xpath('//table')[i].xpath('tbody')\<close> (cells 2, 15, 17 and 19).\<close>

definition table_at :: "nat \<Rightarrow> node \<Rightarrow> error + node list" where
  "table_at i response =
     (case index (all_tables response) i of
        Inl e \<Rightarrow> Inl e
      | Inr t \<Rightarrow> Inr (xpath [''tbody''] [t]))"

text \<open>A \<^verbatim>\<open>for\<close> loop over a list whose body may raise: the state reached so far stays
  (a dictionary, a list and a database file keep what was written before the
  exception), and the exception ends the loop.\<close>

fun for_loop :: "('a \<Rightarrow> 's \<Rightarrow> 's \<times> error option) \<Rightarrow> 'a list \<Rightarrow> 's \<Rightarrow> 's \<times> error option" where
  "for_loop body [] s = (s, None)"
| "for_loop body (x # xs) s =
     (case body x s of
        (s', None) \<Rightarrow> for_loop body xs s'
      | (s', Some e) \<Rightarrow> (s', Some e))"

text \<open>Statements in sequence: the second runs in the state the first leaves, unless the
  first raised. \<^verbatim>\<open>try: ... except E: continue\<close> swallows the exception \<open>E\<close> and keeps the
  state.\<close>

definition seq :: "'s \<times> error option \<Rightarrow> ('s \<Rightarrow> 's \<times> error option) \<Rightarrow> 's \<times> error option" where
  "seq r f = (case r of (s, None) \<Rightarrow> f s | (s, Some e) \<Rightarrow> (s, Some e))"

definition except :: "error \<Rightarrow> 's \<times> error option \<Rightarrow> 's \<times> error option" where
  "except e r = (if snd r = Some e then (fst r, None) else r)"

section \<open>Cells 4 to 8: the medal table as JSON and as CSV\<close>

text \<open>The two lines every loop over the medal table starts with:
  \<^verbatim>\<open>medal = tr.xpath('td/b/text()').extract()[0]\<close> and
  \<^verbatim>\<open>athlete = tr.xpath('td/a/text()').extract()[0]\<close>.\<close>

definition medal_athlete :: "node \<Rightarrow> error + (string \<times> string)" where
  "medal_athlete tr =
     (case index (extract_text [''td'', ''b''] tr) 0 of
        Inl e \<Rightarrow> Inl e
      | Inr medal \<Rightarrow>
          (case index (extract_text [''td'', ''a''] tr) 0 of
             Inl e \<Rightarrow> Inl e
           | Inr athlete \<Rightarrow> Inr (medal, athlete)))"

text \<open>Cell 4. A Python dictionary keeps its keys in insertion order and an assignment
  to a key that is present replaces the value in place: an association list with
  \<open>AList.update\<close>.\<close>

type_synonym dict = "(string \<times> string) list"

definition cell4_body :: "node \<Rightarrow> dict \<Rightarrow> dict \<times> error option" where
  "cell4_body tr scrapped_data =
     (case medal_athlete tr of
        Inl e \<Rightarrow> (scrapped_data, Some e)
      | Inr (medal, athlete) \<Rightarrow> (AList.update medal athlete scrapped_data, None))"

definition cell4 :: "node list \<Rightarrow> dict \<times> error option" where
  "cell4 table = for_loop cell4_body (xpath [''tr''] table) []"

text \<open>Cell 5: \<^verbatim>\<open>json.dump(scrapped_data, _f)\<close> on a file opened with mode \<^verbatim>\<open>"w"\<close>,
  which empties it. A JSON file is the list of the values dumped into it; the rendering
  of a value as text belongs to the library.\<close>

datatype json = JString string | JObject "(string \<times> json) list"

definition open_w :: "'a list \<Rightarrow> 'a list" where
  "open_w f = []"

definition dump :: "dict \<Rightarrow> json list \<Rightarrow> json list" where
  "dump d f = f @ [JObject (map (\<lambda>(k, v). (k, JString v)) d)]"

definition cell5 :: "dict \<Rightarrow> json list \<Rightarrow> json list" where
  "cell5 scrapped_data f = dump scrapped_data (open_w f)"

text \<open>Cell 7.\<close>

definition column_names :: "string list" where
  "column_names = [''Medal'', ''Athlete'']"

definition cell7_body :: "node \<Rightarrow> string list list \<Rightarrow> string list list \<times> error option" where
  "cell7_body tr rows =
     (case medal_athlete tr of
        Inl e \<Rightarrow> (rows, Some e)
      | Inr (medal, athlete) \<Rightarrow> (rows @ [[medal, athlete]], None))"

definition cell7 :: "node list \<Rightarrow> string list list \<times> error option" where
  "cell7 table = for_loop cell7_body (xpath [''tr''] table) []"

text \<open>Cell 8: the file is opened with mode \<^verbatim>\<open>"w"\<close>, \<^verbatim>\<open>writerow\<close> writes one record
  and \<^verbatim>\<open>writerows\<close> one record for every element. A CSV file is the list of its
  records.\<close>

definition writerow :: "string list \<Rightarrow> string list list \<Rightarrow> string list list" where
  "writerow r f = f @ [r]"

definition writerows :: "string list list \<Rightarrow> string list list \<Rightarrow> string list list" where
  "writerows rs f = fold writerow rs f"

definition cell8 :: "string list list \<Rightarrow> string list list \<Rightarrow> string list list" where
  "cell8 rows f = writerows rows (writerow column_names (open_w f))"

section \<open>The database files\<close>

text \<open>
  The SQL engine is a capability of the platform. The model holds what the notebook
  uses of it: tables of rows, each row with its rowid; a column declared
  \<^verbatim>\<open>integer primary key\<close> shows the rowid; a new row gets the largest rowid plus one
  (1 in an empty table). A connection made by \<^verbatim>\<open>sqlite3.connect\<close> opens a transaction
  before an INSERT when none is open, \<^verbatim>\<open>commit\<close> writes the transaction to the file,
  and \<^verbatim>\<open>close\<close> drops what is not committed. The rows of a table stand in the
  order of their rowids, which is the order a \<^verbatim>\<open>select *\<close> gives them in. At the
  ceiling \<open>2^63 - 1\<close> of the rowids the engine looks for a free rowid at random; the
  function \<open>next_rowid\<close> below is the choice of the engine under that ceiling, and the
  properties that speak of rowids carry the bound as a hypothesis (\<open>room_for\<close>).
\<close>

datatype sql_value = SqlNull | SqlInteger int | SqlText string

datatype coldecl = IntegerPrimaryKey | TEXT

record sql_table =
  columns :: "(string \<times> coldecl) list"
  rows :: "(int \<times> sql_value list) list"

type_synonym database = "string \<rightharpoonup> sql_table"

datatype stmt =
    CreateTableIfNotExists string "(string \<times> coldecl) list"
  | InsertInto string "string list"
  | SelectAllFrom string

text \<open>The SQL texts of the notebook, as the cells write them.\<close>

definition db_table_cell10 :: string where
  "db_table_cell10 =
     ''CREATE TABLE IF NOT EXISTS results (id integer primary key, medal TEXT, athlete TEXT)''"

definition query_cell11 :: string where
  "query_cell11 = ''INSERT INTO results(medal, athlete) VALUES(?, ?)''"

definition query_cell13 :: string where
  "query_cell13 = ''select * from results''"

definition create_cell14 :: string where
  "create_cell14 =
     ''\<newline>CREATE TABLE IF NOT EXISTS high_jump_results (\<newline>    rank TEXT,\<newline>    athlete TEXT\<newline>)\<newline>''"

definition insert_cell15 :: string where
  "insert_cell15 = ''INSERT INTO high_jump_results (rank, athlete) VALUES (?, ?)''"

definition query_cell16 :: string where
  "query_cell16 = ''select * from high_jump_results''"

definition db_table_cell18 :: string where
  "db_table_cell18 =
     ''CREATE TABLE IF NOT EXISTS heights (id integer primary key, rank TEXT, athlete TEXT, height TEXT)''"

definition insert_cell19 :: string where
  "insert_cell19 = ''INSERT INTO heights (rank, athlete, height) VALUES (?, ?, ?)''"

definition query_cell20 :: string where
  "query_cell20 = ''select * from heights''"

text \<open>How the engine reads these texts; any other text is a syntax error here.\<close>

definition parse_sql :: "string \<Rightarrow> stmt option" where
  "parse_sql sql =
     (if sql = db_table_cell10 then
        Some (CreateTableIfNotExists ''results''
                [(''id'', IntegerPrimaryKey), (''medal'', TEXT), (''athlete'', TEXT)])
      else if sql = query_cell11 then Some (InsertInto ''results'' [''medal'', ''athlete''])
      else if sql = query_cell13 then Some (SelectAllFrom ''results'')
      else if sql = create_cell14 then
        Some (CreateTableIfNotExists ''high_jump_results'' [(''rank'', TEXT), (''athlete'', TEXT)])
      else if sql = insert_cell15 then
        Some (InsertInto ''high_jump_results'' [''rank'', ''athlete''])
      else if sql = query_cell16 then Some (SelectAllFrom ''high_jump_results'')
      else if sql = db_table_cell18 then
        Some (CreateTableIfNotExists ''heights''
                [(''id'', IntegerPrimaryKey), (''rank'', TEXT), (''athlete'', TEXT), (''height'', TEXT)])
      else if sql = insert_cell19 then
        Some (InsertInto ''heights'' [''rank'', ''athlete'', ''height''])
      else if sql = query_cell20 then Some (SelectAllFrom ''heights'')
      else None)"

definition next_rowid :: "int list \<Rightarrow> int" where
  "next_rowid ids = (case ids of [] \<Rightarrow> 1 | i # js \<Rightarrow> fold max js i + 1)"

text \<open>The new row of an INSERT that names the columns \<open>cols\<close> and binds \<open>params\<close> to
  them: the rowid under the identity column, the bound value under a named column,
  NULL elsewhere.\<close>

definition insert_row :: "string list \<Rightarrow> sql_value list \<Rightarrow> sql_table \<Rightarrow> sql_table" where
  "insert_row cols params t =
     (let rowid = next_rowid (map fst (rows t))
      in t\<lparr>rows := rows t @
           [(rowid,
             map (\<lambda>(n, d). case d of
                    IntegerPrimaryKey \<Rightarrow> SqlInteger rowid
                  | TEXT \<Rightarrow> (case map_of (zip cols params) n of Some v \<Rightarrow> v | None \<Rightarrow> SqlNull))
                 (columns t))]\<rparr>)"

text \<open>A connection with its cursor. \<open>disk\<close> is the committed content of the file,
  \<open>txn\<close> the content inside the open transaction, \<open>history\<close> the calls of
  \<^verbatim>\<open>execute\<close> with the SQL text and the bound parameters of each, \<open>fetched\<close> the
  result set of the cursor.\<close>

record connection =
  disk :: database
  txn :: "database option"
  closed :: bool
  history :: "(string \<times> sql_value list) list"
  fetched :: "sql_value list list"

definition connect :: "database \<Rightarrow> connection" where
  "connect file = \<lparr>disk = file, txn = None, closed = False, history = [], fetched = []\<rparr>"

definition view :: "connection \<Rightarrow> database" where
  "view c = (case txn c of None \<Rightarrow> disk c | Some v \<Rightarrow> v)"

definition write_db :: "(database \<Rightarrow> database) \<Rightarrow> connection \<Rightarrow> connection" where
  "write_db f c = (case txn c of None \<Rightarrow> c\<lparr>disk := f (disk c)\<rparr> | Some v \<Rightarrow> c\<lparr>txn := Some (f v)\<rparr>)"

text \<open>\<^verbatim>\<open>cursor.execute(sql, params)\<close>. A statement that names a missing table or
  column fails when it is prepared; the transaction is opened next, and the parameters
  are bound last. The inserts of the notebook name text columns of its own tables, and
  that is what the model covers: an insert that names a column of another kind is
  given as the same failure, and the properties of inserts below ask for a table with
  the columns of the notebook.\<close>

definition run_stmt :: "stmt \<Rightarrow> sql_value list \<Rightarrow> connection \<Rightarrow> connection \<times> error option" where
  "run_stmt st params c =
     (case st of
        CreateTableIfNotExists name cols \<Rightarrow>
          (case view c name of
             Some t \<Rightarrow> (c, None)
           | None \<Rightarrow> (write_db (\<lambda>db. db(name \<mapsto> \<lparr>columns = cols, rows = []\<rparr>)) c, None))
      | InsertInto name cols \<Rightarrow>
          (case view c name of
             None \<Rightarrow> (c, Some OperationalError)
           | Some t \<Rightarrow>
               if \<not> list_all (\<lambda>n. (n, TEXT) \<in> set (columns t)) cols
               then (c, Some OperationalError)
               else if length params \<noteq> length cols
               then (c\<lparr>txn := Some (view c)\<rparr>, Some ProgrammingError)
               else (c\<lparr>txn := Some ((view c)(name \<mapsto> insert_row cols params t))\<rparr>, None))
      | SelectAllFrom name \<Rightarrow>
          (case view c name of
             None \<Rightarrow> (c, Some OperationalError)
           | Some t \<Rightarrow> (c\<lparr>fetched := map snd (rows t)\<rparr>, None)))"

definition execute :: "string \<Rightarrow> sql_value list \<Rightarrow> connection \<Rightarrow> connection \<times> error option" where
  "execute sql params c =
     (let c' = c\<lparr>history := history c @ [(sql, params)]\<rparr>
      in if closed c then (c', Some ProgrammingError)
         else (case parse_sql sql of
                 None \<Rightarrow> (c', Some OperationalError)
               | Some st \<Rightarrow> run_stmt st params c'))"

definition commit :: "connection \<Rightarrow> connection \<times> error option" where
  "commit c =
     (if closed c then (c, Some ProgrammingError)
      else (case txn c of
              None \<Rightarrow> (c, None)
            | Some v \<Rightarrow> (c\<lparr>disk := v, txn := None\<rparr>, None)))"

definition close :: "connection \<Rightarrow> connection \<times> error option" where
  "close c = (c\<lparr>txn := None, closed := True\<rparr>, None)"

definition fetchall :: "connection \<Rightarrow> sql_value list list" where
  "fetchall c = fetched c"

section \<open>Cells 10 to 13: the results table\<close>

definition cell10 :: "database \<Rightarrow> connection \<times> error option" where
  "cell10 file = seq (execute db_table_cell10 [] (connect file)) commit"

definition cell11_body :: "node \<Rightarrow> connection \<Rightarrow> connection \<times> error option" where
  "cell11_body tr connection =
     (case medal_athlete tr of
        Inl e \<Rightarrow> (connection, Some e)
      | Inr (medal, athlete) \<Rightarrow>
          seq (execute query_cell11 [SqlText medal, SqlText athlete] connection) commit)"

definition cell11 :: "node list \<Rightarrow> database \<Rightarrow> connection \<times> error option" where
  "cell11 table file = for_loop cell11_body (xpath [''tr''] table) (connect file)"

text \<open>Cell 13 (and cells 16 and 20 on their tables): a new connection, the query,
  \<^verbatim>\<open>rows = cursor.fetchall()\<close>, a commit. Printing is left out.\<close>

definition cell13 :: "database \<Rightarrow> connection \<times> error option" where
  "cell13 file = seq (execute query_cell13 [] (connect file)) commit"

section \<open>Cells 14 to 16: every file of the directory\<close>

definition cell14 :: "database \<Rightarrow> connection \<times> error option" where
  "cell14 file = seq (execute create_cell14 [] (connect file)) commit"

text \<open>The body of the \<^verbatim>\<open>try\<close> of cell 15.\<close>

definition cell15_try :: "node \<Rightarrow> connection \<Rightarrow> connection \<times> error option" where
  "cell15_try tr conn =
     (case index (extract_text [''td'', ''b''] tr) 0 of
        Inl e \<Rightarrow> (conn, Some e)
      | Inr r \<Rightarrow>
          (let rank = strip r
           in case index (extract_text [''td'', ''a''] tr) 0 of
                Inl e \<Rightarrow> (conn, Some e)
              | Inr a \<Rightarrow>
                  (let athlete = strip a
                   in execute insert_cell15 [SqlText rank, SqlText athlete] conn)))"

definition cell15_body :: "node \<Rightarrow> connection \<Rightarrow> connection \<times> error option" where
  "cell15_body tr conn = except IndexError (cell15_try tr conn)"

text \<open>One file: the response of the file is its parsed document.\<close>

definition cell15_file :: "node \<Rightarrow> connection \<Rightarrow> connection \<times> error option" where
  "cell15_file response conn =
     (case table_at 1 response of
        Inl e \<Rightarrow> (conn, Some e)
      | Inr table \<Rightarrow> for_loop cell15_body (xpath [''tr''] table) conn)"

definition cell15_loop :: "node list \<Rightarrow> connection \<Rightarrow> connection \<times> error option" where
  "cell15_loop html_files conn = for_loop cell15_file html_files conn"

definition cell15 :: "node list \<Rightarrow> connection \<Rightarrow> connection \<times> error option" where
  "cell15 html_files conn = seq (seq (cell15_loop html_files conn) commit) close"

definition cell16 :: "database \<Rightarrow> connection \<times> error option" where
  "cell16 file = seq (execute query_cell16 [] (connect file)) commit"

section \<open>Cells 18 to 20: the heights table\<close>

definition cell18 :: "database \<Rightarrow> connection \<times> error option" where
  "cell18 file = seq (execute db_table_cell18 [] (connect file)) commit"

text \<open>Python's \<^verbatim>\<open>None\<close> is bound as NULL.\<close>

definition bind :: "string option \<Rightarrow> sql_value" where
  "bind x = (case x of None \<Rightarrow> SqlNull | Some s \<Rightarrow> SqlText s)"

text \<open>The body of the \<^verbatim>\<open>try\<close> of cell 19 (printing left out). Nothing in it raises
  AttributeError: \<^verbatim>\<open>extract_first\<close> gives \<^verbatim>\<open>None\<close> for a missing node.\<close>

definition cell19_try :: "node \<Rightarrow> connection \<Rightarrow> connection \<times> error option" where
  "cell19_try tr connection =
     (let rank = extract_first (extract_text [''td''] tr);
          name = extract_first (extract_text [''td'', ''a''] tr);
          height = extract_first (extract_text [''td'', ''b''] tr)
      in seq (execute insert_cell19 [bind rank, bind name, bind height] connection) commit)"

definition cell19_body :: "node \<Rightarrow> connection \<Rightarrow> connection \<times> error option" where
  "cell19_body tr connection = except AttributeError (cell19_try tr connection)"

text \<open>Cell 19 works on the connection that cell 18 left open.\<close>

definition cell19 :: "node \<Rightarrow> connection \<Rightarrow> connection \<times> error option" where
  "cell19 response connection =
     (case table_at 3 response of
        Inl e \<Rightarrow> (connection, Some e)
      | Inr table1 \<Rightarrow> for_loop cell19_body (xpath [''tr''] table1) connection)"

definition cell20 :: "database \<Rightarrow> connection \<times> error option" where
  "cell20 file = seq (execute query_cell20 [] (connect file)) commit"

section \<open>Notions used to state the properties\<close>

text \<open>Storing a pair in the dictionary.\<close>

definition put :: "string \<times> string \<Rightarrow> dict \<Rightarrow> dict" where
  "put p d = AList.update (fst p) (snd p) d"

text \<open>A list with consecutive numbers from \<open>k\<close> on.\<close>

fun numbered :: "int \<Rightarrow> 'a list \<Rightarrow> (int \<times> 'a) list" where
  "numbered k [] = []"
| "numbered k (x # xs) = (k, x) # numbered (k + 1) xs"

text \<open>The records of the rows before the first row that lacks a field, and the exception
  that row raises.\<close>

fun prefix_records :: "node list \<Rightarrow> (string \<times> string) list" where
  "prefix_records [] = []"
| "prefix_records (tr # trs) =
     (case medal_athlete tr of Inl e \<Rightarrow> [] | Inr p \<Rightarrow> p # prefix_records trs)"

fun first_error :: "node list \<Rightarrow> error option" where
  "first_error [] = None"
| "first_error (tr # trs) =
     (case medal_athlete tr of Inl e \<Rightarrow> Some e | Inr p \<Rightarrow> first_error trs)"

text \<open>The columns of the three tables, the stored row of a record and the call of
  \<^verbatim>\<open>execute\<close> that hands a record to the engine.\<close>

definition results_columns :: "(string \<times> coldecl) list" where
  "results_columns = [(''id'', IntegerPrimaryKey), (''medal'', TEXT), (''athlete'', TEXT)]"

definition results_row :: "int \<times> string \<times> string \<Rightarrow> int \<times> sql_value list" where
  "results_row x = (case x of (k, m, a) \<Rightarrow> (k, [SqlInteger k, SqlText m, SqlText a]))"

definition results_call :: "string \<times> string \<Rightarrow> string \<times> sql_value list" where
  "results_call p = (query_cell11, [SqlText (fst p), SqlText (snd p)])"

definition heights_columns :: "(string \<times> coldecl) list" where
  "heights_columns =
     [(''id'', IntegerPrimaryKey), (''rank'', TEXT), (''athlete'', TEXT), (''height'', TEXT)]"

definition high_jump_columns :: "(string \<times> coldecl) list" where
  "high_jump_columns = [(''rank'', TEXT), (''athlete'', TEXT)]"

definition high_jump_row :: "int \<times> string \<times> string \<Rightarrow> int \<times> sql_value list" where
  "high_jump_row x = (case x of (k, r, a) \<Rightarrow> (k, [SqlText r, SqlText a]))"

definition high_jump_call :: "string \<times> string \<Rightarrow> string \<times> sql_value list" where
  "high_jump_call p = (insert_cell15, [SqlText (fst p), SqlText (snd p)])"

text \<open>What the \<^verbatim>\<open>try\<close> of cell 15 reads from a row: nothing when a field is missing.\<close>

definition rank_athlete :: "node \<Rightarrow> (string \<times> string) option" where
  "rank_athlete tr =
     (case extract_text [''td'', ''b''] tr of
        [] \<Rightarrow> None
      | r # _ \<Rightarrow>
          (case extract_text [''td'', ''a''] tr of
             [] \<Rightarrow> None
           | a # _ \<Rightarrow> Some (strip r, strip a)))"

text \<open>The records of the files before the first file with fewer than two tables, and
  the exception that file raises.\<close>

fun batch_records :: "node list \<Rightarrow> (string \<times> string) list" where
  "batch_records [] = []"
| "batch_records (f # fs) =
     (case table_at 1 f of
        Inl e \<Rightarrow> []
      | Inr table \<Rightarrow> List.map_filter rank_athlete (xpath [''tr''] table) @ batch_records fs)"

fun batch_error :: "node list \<Rightarrow> error option" where
  "batch_error [] = None"
| "batch_error (f # fs) = (case table_at 1 f of Inl e \<Rightarrow> Some e | Inr table \<Rightarrow> batch_error fs)"

text \<open>The rows a \<^verbatim>\<open>select *\<close> on a table gives, and the rows of a table that a
  connection has inserted and not committed.\<close>

definition table_rows :: "database \<Rightarrow> string \<Rightarrow> sql_value list list" where
  "table_rows db name = (case db name of None \<Rightarrow> [] | Some t \<Rightarrow> map snd (rows t))"

definition pending_rows :: "connection \<Rightarrow> string \<Rightarrow> sql_value list list" where
  "pending_rows c name = drop (length (table_rows (disk c) name)) (table_rows (view c) name)"

text \<open>A table has an identity column when one of its columns is declared
  \<^verbatim>\<open>integer primary key\<close>.\<close>

definition has_identity_column :: "sql_table \<Rightarrow> bool" where
  "has_identity_column t = (IntegerPrimaryKey \<in> snd ` set (columns t))"

text \<open>A call of \<^verbatim>\<open>execute\<close> is a parameterized insert when its SQL text is the fixed
  text of the cell, with a \<^verbatim>\<open>?\<close> for every value, and the values are its parameters.\<close>

definition results_insert :: "string \<times> sql_value list \<Rightarrow> bool" where
  "results_insert call =
     (fst call = ''INSERT INTO results(medal, athlete) VALUES(?, ?)''
      \<and> (\<exists>medal athlete. snd call = [SqlText medal, SqlText athlete]))"

definition high_jump_insert :: "string \<times> sql_value list \<Rightarrow> bool" where
  "high_jump_insert call =
     (fst call = ''INSERT INTO high_jump_results (rank, athlete) VALUES (?, ?)''
      \<and> (\<exists>rank athlete. snd call = [SqlText rank, SqlText athlete]))"

definition heights_insert :: "string \<times> sql_value list \<Rightarrow> bool" where
  "heights_insert call =
     (fst call = ''INSERT INTO heights (rank, athlete, height) VALUES (?, ?, ?)''
      \<and> (\<exists>rank name height. snd call = [bind rank, bind name, bind height]))"

text \<open>A database file is ready for a table when the table is absent or has the columns
  the notebook gives it.\<close>

definition table_ready :: "string \<Rightarrow> (string \<times> coldecl) list \<Rightarrow> database \<Rightarrow> bool" where
  "table_ready name cols db = (case db name of None \<Rightarrow> True | Some t \<Rightarrow> columns t = cols)"

text \<open>The largest rowid of the engine. A table has room for \<open>n\<close> more rows when its
  rows stand in the order of their rowids and the \<open>n\<close> rowids after the largest one do
  not pass the ceiling. Only then does the engine number the next \<open>n\<close> rows with the
  rowids \<open>next_rowid\<close> gives and list them last; the properties that speak of the
  rowid or the place of a new row ask for this room.\<close>

definition largest_rowid :: int where
  "largest_rowid = 2 ^ 63 - 1"

definition room_for :: "nat \<Rightarrow> sql_table \<Rightarrow> bool" where
  "room_for n t =
     (sorted_wrt (<) (map fst (rows t))
      \<and> next_rowid (map fst (rows t)) + int n - 1 \<le> largest_rowid)"

section \<open>Example pages\<close>

text \<open>A medal table in which the label Gold stands in two rows.\<close>

definition medal_row :: "string \<Rightarrow> string \<Rightarrow> node" where
  "medal_row medal athlete =
     Element ''tr'' [Element ''td'' [Element ''b'' [TextNode medal]],
                     Element ''td'' [Element ''a'' [TextNode athlete]]]"

definition medal_table :: "node list" where
  "medal_table =
     [Element ''tbody''
        [medal_row ''Gold'' ''Smith'', medal_row ''Silver'' ''Forsyth'', medal_row ''Gold'' ''Kimino'']]"

text \<open>A page whose second table has the given rows, and two such pages: the first
  with a header row and a medal row, the second with a medal row.\<close>

definition page :: "node list \<Rightarrow> node" where
  "page trs =
     Element ''html''
       [Element ''body'' [Element ''table'' [], Element ''table'' [Element ''tbody'' trs]]]"

definition header_row :: node where
  "header_row = Element ''tr'' [Element ''th'' [TextNode ''Rank''], Element ''th'' [TextNode ''Name'']]"

definition page_a :: node where
  "page_a = page [header_row, medal_row ''Gold'' '' Smith'']"

definition page_b :: node where
  "page_b = page [medal_row ''Gold'' ''Hames'']"

text \<open>A page whose fourth table has a header row and one row of a rank, a name and a
  height.\<close>

definition heights_page :: node where
  "heights_page =
     Element ''html''
       [Element ''body''
          [Element ''table'' [], Element ''table'' [], Element ''table'' [],
           Element ''table''
             [Element ''tbody''
                [Element ''tr''
                   [Element ''th'' [TextNode ''Rank''], Element ''th'' [TextNode ''Name''],
                    Element ''th'' [TextNode ''Result'']],
                 Element ''tr''
                   [Element ''td'' [TextNode ''1''],
                    Element ''td'' [Element ''a'' [TextNode ''Tim Forsyth'']],
                    Element ''td'' [Element ''b'' [TextNode ''2.16'']]]]]]]"

text \<open>Two passes of cells 10 and 11 over the medal table, and two passes of cells 14
  and 15 over the two pages, each starting from a database without tables.\<close>

definition first_run :: connection where
  "first_run = fst (cell11 medal_table (disk (fst (cell10 Map.empty))))"

definition second_run :: connection where
  "second_run = fst (cell11 medal_table (disk (fst (cell10 (disk first_run)))))"

definition first_batch :: connection where
  "first_batch = fst (cell15 [page_a, page_b] (fst (cell14 Map.empty)))"

definition second_batch :: connection where
  "second_batch = fst (cell15 [page_a, page_b] (fst (cell14 (disk first_batch))))"

section \<open>Loops and dictionaries\<close>

declare xpath.simps [simp del]

lemma for_loop_append:
  "for_loop body (xs @ ys) s =
     (case for_loop body xs s of
        (s', None) \<Rightarrow> for_loop body ys s'
      | (s', Some e) \<Rightarrow> (s', Some e))"
  by (induction xs arbitrary: s) (auto split: prod.splits option.splits)

lemma map_Inr_set:
  "map f xs = map Inr ps \<Longrightarrow> set ps = {p. \<exists>x \<in> set xs. f x = Inr p}"
proof (induction xs arbitrary: ps)
  case Nil
  then show ?case by simp
next
  case (Cons x xs)
  then obtain p ps' where "ps = p # ps'" "f x = Inr p" "map f xs = map Inr ps'"
    by (cases ps) auto
  with Cons.IH [of ps'] show ?case by auto
qed

lemma map_of_fold_put: "map_of (fold put ps d) = map_of d ++ map_of (rev ps)"
  by (induction ps arbitrary: d)
    (auto simp: put_def update_conv' map_add_def fun_eq_iff split: option.splits)

lemma keys_fold_put: "fst ` set (fold put ps d) = fst ` set d \<union> fst ` set ps"
  by (induction ps arbitrary: d) (auto simp: put_def dom_update)

lemma distinct_fold_put: "distinct (map fst d) \<Longrightarrow> distinct (map fst (fold put ps d))"
  by (induction ps arbitrary: d) (auto simp: put_def distinct_update)

lemma cell4_body_Inr:
  "medal_athlete tr = Inr (m, a) \<Longrightarrow> cell4_body tr d = (AList.update m a d, None)"
  by (simp add: cell4_body_def)

lemma cell4_body_Inl: "medal_athlete tr = Inl e \<Longrightarrow> cell4_body tr d = (d, Some e)"
  by (simp add: cell4_body_def)

lemma cell4_loop_fold:
  "for_loop cell4_body trs d = (d', None) \<Longrightarrow>
   \<exists>ps. map medal_athlete trs = map Inr ps \<and> d' = fold put ps d"
proof (induction trs arbitrary: d)
  case Nil
  then show ?case by simp
next
  case (Cons tr trs)
  from Cons.prems obtain m a where ma: "medal_athlete tr = Inr (m, a)"
    by (cases "medal_athlete tr") (auto simp: cell4_body_Inl)
  with Cons.prems have rest: "for_loop cell4_body trs (AList.update m a d) = (d', None)"
    by (simp add: cell4_body_Inr)
  from Cons.IH [OF rest] obtain ps where
    "map medal_athlete trs = map Inr ps" "d' = fold put ps (AList.update m a d)"
    by blast
  then have "map medal_athlete (tr # trs) = map Inr ((m, a) # ps) \<and> d' = fold put ((m, a) # ps) d"
    using ma by (simp add: put_def)
  then show ?case by blast
qed

lemmas extract_defs =
  medal_athlete_def index_def extract_text_def child_step_def medal_row_def xpath.simps

lemma medal_table_rows:
  "xpath [''tr''] medal_table =
     [medal_row ''Gold'' ''Smith'', medal_row ''Silver'' ''Forsyth'', medal_row ''Gold'' ''Kimino'']"
  by (simp add: medal_table_def child_step_def medal_row_def xpath.simps)

lemma medal_athlete_medal_row [simp]: "medal_athlete (medal_row m a) = Inr (m, a)"
  by (simp add: extract_defs)

lemma cell4_medal_table:
  "cell4 medal_table = ([(''Gold'', ''Kimino''), (''Silver'', ''Forsyth'')], None)"
  unfolding cell4_def medal_table_rows by (simp add: cell4_body_def)

section \<open>The engine and the loops over the tables\<close>

lemmas sql_texts =
  db_table_cell10_def query_cell11_def query_cell13_def create_cell14_def insert_cell15_def
  query_cell16_def db_table_cell18_def insert_cell19_def query_cell20_def

lemma parse_db_table_cell10:
  "parse_sql db_table_cell10 =
     Some (CreateTableIfNotExists ''results''
            [(''id'', IntegerPrimaryKey), (''medal'', TEXT), (''athlete'', TEXT)])"
  by (simp add: parse_sql_def)

lemma parse_query_cell11: "parse_sql query_cell11 = Some (InsertInto ''results'' [''medal'', ''athlete''])"
  by (simp add: parse_sql_def sql_texts)

lemma parse_query_cell13: "parse_sql query_cell13 = Some (SelectAllFrom ''results'')"
  by (simp add: parse_sql_def sql_texts)

lemma parse_create_cell14:
  "parse_sql create_cell14 =
     Some (CreateTableIfNotExists ''high_jump_results'' [(''rank'', TEXT), (''athlete'', TEXT)])"
  by (simp add: parse_sql_def sql_texts)

lemma parse_insert_cell15:
  "parse_sql insert_cell15 = Some (InsertInto ''high_jump_results'' [''rank'', ''athlete''])"
  by (simp add: parse_sql_def sql_texts)

lemma parse_query_cell16: "parse_sql query_cell16 = Some (SelectAllFrom ''high_jump_results'')"
  by (simp add: parse_sql_def sql_texts)

lemma parse_db_table_cell18:
  "parse_sql db_table_cell18 =
     Some (CreateTableIfNotExists ''heights''
            [(''id'', IntegerPrimaryKey), (''rank'', TEXT), (''athlete'', TEXT), (''height'', TEXT)])"
  by (simp add: parse_sql_def sql_texts)

lemma parse_insert_cell19:
  "parse_sql insert_cell19 = Some (InsertInto ''heights'' [''rank'', ''athlete'', ''height''])"
  by (simp add: parse_sql_def sql_texts)

lemma parse_query_cell20: "parse_sql query_cell20 = Some (SelectAllFrom ''heights'')"
  by (simp add: parse_sql_def sql_texts)

lemmas parse_sql_simps =
  parse_db_table_cell10 parse_query_cell11 parse_query_cell13 parse_create_cell14
  parse_insert_cell15 parse_query_cell16 parse_db_table_cell18 parse_insert_cell19
  parse_query_cell20

lemma next_rowid_Cons: "next_rowid (i # js) = Max (set (i # js)) + 1"
  by (simp only: next_rowid_def Max.set_eq_fold list.case)

lemma Max_insert_succ:
  "finite S \<Longrightarrow> S \<noteq> {} \<Longrightarrow> Max (insert (Max S + 1) S) = Max S + (1::int)"
  by (simp add: max_def)

lemma next_rowid_snoc: "next_rowid (ids @ [next_rowid ids]) = next_rowid ids + 1"
proof (cases ids)
  case Nil
  then show ?thesis by (simp add: next_rowid_def)
next
  case (Cons i js)
  define S where "S = set (i # js)"
  have S: "finite S" "S \<noteq> {}" by (simp_all add: S_def)
  have k: "next_rowid ids = Max S + 1"
    unfolding Cons S_def by (rule next_rowid_Cons)
  have "ids @ [Max S + 1] = i # (js @ [Max S + 1])"
    unfolding Cons by simp
  then have "next_rowid (ids @ [Max S + 1]) = Max (set (i # (js @ [Max S + 1]))) + 1"
    by (simp only: next_rowid_Cons)
  also have "set (i # (js @ [Max S + 1])) = insert (Max S + 1) S"
    by (auto simp: S_def)
  finally show ?thesis
    unfolding k Max_insert_succ [OF S] by simp
qed

lemma numbered_zip: "numbered k xs = zip [k..k + int (length xs) - 1] xs"
proof (induction xs arbitrary: k)
  case Nil
  then show ?case by simp
next
  case (Cons x xs)
  have "[k..k + int (length (x # xs)) - 1] = k # [k + 1..k + 1 + int (length xs) - 1]"
    by (subst upto_rec1) (simp_all add: algebra_simps)
  then show ?case using Cons.IH [of "k + 1"] by simp
qed

lemma numbered_append:
  "numbered k (xs @ ys) = numbered k xs @ numbered (k + int (length xs)) ys"
  by (induction xs arbitrary: k) (simp_all add: algebra_simps)

lemma first_error_None:
  "first_error trs = None \<Longrightarrow> map medal_athlete trs = map Inr (prefix_records trs)"
  by (induction trs) (auto split: sum.splits)

lemma map_Inr_prefix_records:
  "map medal_athlete trs = map Inr ps \<Longrightarrow> prefix_records trs = ps \<and> first_error trs = None"
  by (induction trs arbitrary: ps) (auto split: sum.splits)

lemma execute_no_IndexError: "snd (execute sql params c) \<noteq> Some IndexError"
  by (auto simp: execute_def run_stmt_def Let_def split: option.splits stmt.splits)

lemma cell11_body_row:
  assumes "\<not> closed c" "txn c = None" "disk c ''results'' = Some t"
    "columns t = results_columns" "medal_athlete tr = Inr (m, a)"
  shows "\<exists>c'. cell11_body tr c = (c', None) \<and> \<not> closed c' \<and> txn c' = None
     \<and> disk c' = (disk c)(''results'' \<mapsto>
          t\<lparr>rows := rows t @ [results_row (next_rowid (map fst (rows t)), m, a)]\<rparr>)
     \<and> history c' = history c @ [results_call (m, a)]"
  using assms
  by (simp add: cell11_body_def execute_def parse_query_cell11 run_stmt_def view_def seq_def
      commit_def insert_row_def results_columns_def results_row_def results_call_def
      Let_def)

lemma cell11_body_error:
  "medal_athlete tr = Inl e \<Longrightarrow> cell11_body tr c = (c, Some e)"
  by (simp add: cell11_body_def)

lemma cell11_loop:
  assumes "\<not> closed c" "txn c = None" "disk c ''results'' = Some t" "columns t = results_columns"
  shows "\<exists>c'. for_loop cell11_body trs c = (c', first_error trs) \<and> \<not> closed c' \<and> txn c' = None
     \<and> disk c' = (disk c)(''results'' \<mapsto>
          t\<lparr>rows := rows t @
               map results_row (numbered (next_rowid (map fst (rows t))) (prefix_records trs))\<rparr>)
     \<and> history c' = history c @ map results_call (prefix_records trs)"
  using assms
proof (induction trs arbitrary: c t)
  case Nil
  then show ?case by (simp add: fun_upd_idem)
next
  case (Cons tr trs)
  show ?case
  proof (cases "medal_athlete tr")
    case (Inl e)
    with Cons.prems show ?thesis
      by (simp add: cell11_body_error fun_upd_idem)
  next
    case (Inr p)
    obtain m a where p: "p = (m, a)" by (cases p)
    let ?k = "next_rowid (map fst (rows t))"
    let ?t1 = "t\<lparr>rows := rows t @ [results_row (?k, m, a)]\<rparr>"
    from cell11_body_row [OF Cons.prems Inr [unfolded p]]
    obtain c1 where c1: "cell11_body tr c = (c1, None)" "\<not> closed c1" "txn c1 = None"
      "disk c1 = (disk c)(''results'' \<mapsto> ?t1)"
      "history c1 = history c @ [results_call (m, a)]"
      by blast
    have t1: "disk c1 ''results'' = Some ?t1" "columns ?t1 = results_columns"
      using c1(4) Cons.prems(4) by simp_all
    have k1: "next_rowid (map fst (rows ?t1)) = ?k + 1"
      by (simp add: results_row_def next_rowid_snoc)
    from Cons.IH [OF c1(2,3) t1]
    obtain c' where c': "for_loop cell11_body trs c1 = (c', first_error trs)" "\<not> closed c'"
      "txn c' = None"
      "disk c' = (disk c1)(''results'' \<mapsto>
          ?t1\<lparr>rows := rows ?t1 @
               map results_row (numbered (next_rowid (map fst (rows ?t1))) (prefix_records trs))\<rparr>)"
      "history c' = history c1 @ map results_call (prefix_records trs)"
      by blast
    have "for_loop cell11_body (tr # trs) c = (c', first_error (tr # trs))"
      using c1(1) c'(1) Inr by simp
    moreover have "disk c' = (disk c)(''results'' \<mapsto>
          t\<lparr>rows := rows t @
               map results_row (numbered ?k (prefix_records (tr # trs)))\<rparr>)"
      using c'(4) c1(4) Inr p k1 by simp
    moreover have "history c' = history c @ map results_call (prefix_records (tr # trs))"
      using c'(5) c1(5) Inr p by simp
    ultimately show ?thesis using c'(2,3) by blast
  qed
qed

lemma next_rowid_numbered:
  "next_rowid (ids @ map fst (numbered (next_rowid ids) xs)) = next_rowid ids + int (length xs)"
proof (induction xs arbitrary: ids)
  case Nil
  then show ?case by simp
next
  case (Cons x xs)
  have "next_rowid ((ids @ [next_rowid ids]) @ map fst (numbered (next_rowid (ids @ [next_rowid ids])) xs))
      = next_rowid (ids @ [next_rowid ids]) + int (length xs)"
    by (rule Cons.IH)
  then show ?case by (simp add: next_rowid_snoc)
qed

lemma cell15_body_skip: "rank_athlete tr = None \<Longrightarrow> cell15_body tr c = (c, None)"
  by (auto simp: cell15_body_def cell15_try_def rank_athlete_def index_def except_def Let_def
      split: list.splits)

lemma cell15_body_insert:
  "rank_athlete tr = Some (r, a) \<Longrightarrow>
   cell15_body tr c = execute insert_cell15 [SqlText r, SqlText a] c"
  using execute_no_IndexError [of insert_cell15 "[SqlText r, SqlText a]" c]
  by (auto simp: cell15_body_def cell15_try_def rank_athlete_def index_def except_def Let_def
      split: list.splits)

lemma execute_insert_cell15:
  assumes "\<not> closed c" "view c ''high_jump_results'' = Some t" "columns t = high_jump_columns"
  shows "\<exists>c'. execute insert_cell15 [SqlText r, SqlText a] c = (c', None) \<and> \<not> closed c'
     \<and> disk c' = disk c
     \<and> view c' = (view c)(''high_jump_results'' \<mapsto>
          t\<lparr>rows := rows t @ [high_jump_row (next_rowid (map fst (rows t)), r, a)]\<rparr>)
     \<and> history c' = history c @ [high_jump_call (r, a)]"
  using assms
  by (cases "txn c")
    (simp_all add: execute_def parse_insert_cell15 run_stmt_def view_def
      insert_row_def high_jump_columns_def high_jump_row_def high_jump_call_def Let_def)

lemma cell15_rows:
  assumes "\<not> closed c" "view c ''high_jump_results'' = Some t" "columns t = high_jump_columns"
  shows "\<exists>c'. for_loop cell15_body trs c = (c', None) \<and> \<not> closed c'
     \<and> disk c' = disk c
     \<and> view c' = (view c)(''high_jump_results'' \<mapsto>
          t\<lparr>rows := rows t @
               map high_jump_row
                 (numbered (next_rowid (map fst (rows t))) (List.map_filter rank_athlete trs))\<rparr>)
     \<and> history c' = history c @ map high_jump_call (List.map_filter rank_athlete trs)"
  using assms
proof (induction trs arbitrary: c t)
  case Nil
  then show ?case by (simp add: fun_upd_idem map_filter_simps)
next
  case (Cons tr trs)
  show ?case
  proof (cases "rank_athlete tr")
    case None
    have "for_loop cell15_body (tr # trs) c = for_loop cell15_body trs c"
      using None by (simp add: cell15_body_skip)
    moreover have "List.map_filter rank_athlete (tr # trs) = List.map_filter rank_athlete trs"
      using None by (simp add: map_filter_simps)
    ultimately show ?thesis
      using Cons.IH [OF Cons.prems] by (simp only:)
  next
    case (Some p)
    obtain r a where p: "p = (r, a)" by (cases p)
    let ?k = "next_rowid (map fst (rows t))"
    let ?t1 = "t\<lparr>rows := rows t @ [high_jump_row (?k, r, a)]\<rparr>"
    from execute_insert_cell15 [OF Cons.prems, of r a]
    obtain c1 where c1: "execute insert_cell15 [SqlText r, SqlText a] c = (c1, None)"
      "\<not> closed c1" "disk c1 = disk c"
      "view c1 = (view c)(''high_jump_results'' \<mapsto> ?t1)"
      "history c1 = history c @ [high_jump_call (r, a)]"
      by blast
    have t1: "view c1 ''high_jump_results'' = Some ?t1" "columns ?t1 = high_jump_columns"
      using c1(4) Cons.prems(3) by simp_all
    have k1: "next_rowid (map fst (rows ?t1)) = ?k + 1"
      by (simp add: high_jump_row_def next_rowid_snoc)
    from Cons.IH [OF c1(2) t1]
    obtain c' where c': "for_loop cell15_body trs c1 = (c', None)" "\<not> closed c'"
      "disk c' = disk c1"
      "view c' = (view c1)(''high_jump_results'' \<mapsto>
          ?t1\<lparr>rows := rows ?t1 @
               map high_jump_row
                 (numbered (next_rowid (map fst (rows ?t1))) (List.map_filter rank_athlete trs))\<rparr>)"
      "history c' = history c1 @ map high_jump_call (List.map_filter rank_athlete trs)"
      by blast
    have "for_loop cell15_body (tr # trs) c = (c', None)"
      using c1(1) c'(1) Some p by (simp add: cell15_body_insert)
    moreover have "view c' = (view c)(''high_jump_results'' \<mapsto>
          t\<lparr>rows := rows t @
               map high_jump_row
                 (numbered ?k (List.map_filter rank_athlete (tr # trs)))\<rparr>)"
      using c'(4) c1(4) Some p k1 by (simp add: map_filter_simps)
    moreover have "history c' = history c @ map high_jump_call (List.map_filter rank_athlete (tr # trs))"
      using c'(5) c1(5) Some p by (simp add: map_filter_simps)
    moreover have "disk c' = disk c"
      using c'(3) c1(3) by simp
    ultimately show ?thesis using c'(2) by blast
  qed
qed

lemma fst_high_jump_row: "fst \<circ> high_jump_row = fst"
  by (auto simp: fun_eq_iff high_jump_row_def)

lemma cell15_files:
  assumes "\<not> closed c" "view c ''high_jump_results'' = Some t" "columns t = high_jump_columns"
  shows "\<exists>c'. cell15_loop fs c = (c', batch_error fs) \<and> \<not> closed c'
     \<and> disk c' = disk c
     \<and> view c' = (view c)(''high_jump_results'' \<mapsto>
          t\<lparr>rows := rows t @
               map high_jump_row (numbered (next_rowid (map fst (rows t))) (batch_records fs))\<rparr>)
     \<and> history c' = history c @ map high_jump_call (batch_records fs)"
  using assms
proof (induction fs arbitrary: c t)
  case Nil
  then show ?case by (simp add: cell15_loop_def fun_upd_idem)
next
  case (Cons f fs)
  show ?case
  proof (cases "table_at 1 f")
    case (Inl e)
    with Cons.prems show ?thesis
      by (simp add: cell15_loop_def cell15_file_def fun_upd_idem)
  next
    case (Inr table)
    let ?k = "next_rowid (map fst (rows t))"
    let ?rs = "List.map_filter rank_athlete (xpath [''tr''] table)"
    let ?t1 = "t\<lparr>rows := rows t @ map high_jump_row (numbered ?k ?rs)\<rparr>"
    from cell15_rows [OF Cons.prems, of "xpath [''tr''] table"]
    obtain c1 where c1: "for_loop cell15_body (xpath [''tr''] table) c = (c1, None)"
      "\<not> closed c1" "disk c1 = disk c"
      "view c1 = (view c)(''high_jump_results'' \<mapsto> ?t1)"
      "history c1 = history c @ map high_jump_call ?rs"
      by blast
    have t1: "view c1 ''high_jump_results'' = Some ?t1" "columns ?t1 = high_jump_columns"
      using c1(4) Cons.prems(3) by simp_all
    have k1: "next_rowid (map fst (rows ?t1)) = ?k + int (length ?rs)"
      by (simp add: fst_high_jump_row next_rowid_numbered)
    from Cons.IH [OF c1(2) t1]
    obtain c' where c': "cell15_loop fs c1 = (c', batch_error fs)" "\<not> closed c'"
      "disk c' = disk c1"
      "view c' = (view c1)(''high_jump_results'' \<mapsto>
          ?t1\<lparr>rows := rows ?t1 @
               map high_jump_row (numbered (next_rowid (map fst (rows ?t1))) (batch_records fs))\<rparr>)"
      "history c' = history c1 @ map high_jump_call (batch_records fs)"
      by blast
    have "cell15_file f c = (c1, None)"
      using c1(1) Inr by (simp add: cell15_file_def)
    then have "cell15_loop (f # fs) c = (c', batch_error (f # fs))"
      using c'(1) Inr by (simp add: cell15_loop_def)
    moreover have "view c' = (view c)(''high_jump_results'' \<mapsto>
          t\<lparr>rows := rows t @
               map high_jump_row (numbered ?k (batch_records (f # fs)))\<rparr>)"
      using c'(4) c1(4) Inr k1 by (simp add: numbered_append)
    moreover have "history c' = history c @ map high_jump_call (batch_records (f # fs))"
      using c'(5) c1(5) Inr by simp
    moreover have "disk c' = disk c"
      using c'(3) c1(3) by simp
    ultimately show ?thesis using c'(2) by blast
  qed
qed

section \<open>The JSON file\<close>

text \<open>
  Claim C4. When cell 4 has run over all rows of the medal table, the file written by
  cell 5 holds a single JSON object; its keys are pairwise different and are exactly
  the labels read from the rows, and the value under a label is the name read from a
  row with that label.
\<close>

theorem cell5_one_entry_per_label:
  assumes "cell4 table = (scrapped_data, None)"
  shows "\<exists>entries. cell5 scrapped_data f = [JObject entries]
           \<and> distinct (map fst entries)
           \<and> set (map fst entries) =
               {medal. \<exists>tr \<in> set (xpath [''tr''] table). \<exists>athlete.
                  medal_athlete tr = Inr (medal, athlete)}
           \<and> (\<forall>(medal, v) \<in> set entries. \<exists>tr \<in> set (xpath [''tr''] table). \<exists>athlete.
                 medal_athlete tr = Inr (medal, athlete) \<and> v = JString athlete)"
proof -
  let ?trs = "xpath [''tr''] table"
  from assms obtain ps where ps: "map medal_athlete ?trs = map Inr ps"
    and d: "scrapped_data = fold put ps []"
    unfolding cell4_def by (blast dest: cell4_loop_fold)
  have sp: "set ps = {p. \<exists>tr \<in> set ?trs. medal_athlete tr = Inr p}"
    using ps by (rule map_Inr_set)
  let ?es = "map (\<lambda>(k, v). (k, JString v)) scrapped_data"
  have fst_es: "map fst ?es = map fst scrapped_data"
    by (simp add: case_prod_unfold comp_def)
  have dist: "distinct (map fst scrapped_data)"
    unfolding d by (rule distinct_fold_put) simp
  then have 1: "distinct (map fst ?es)"
    by (simp only: fst_es)
  have keys: "fst ` set scrapped_data = fst ` set ps"
    unfolding d by (simp add: keys_fold_put)
  have "fst ` set ps = {medal. \<exists>athlete. (medal, athlete) \<in> set ps}"
    by force
  also have "\<dots> = {medal. \<exists>tr \<in> set ?trs. \<exists>athlete. medal_athlete tr = Inr (medal, athlete)}"
    unfolding sp by blast
  finally have 2: "set (map fst ?es) =
      {medal. \<exists>tr \<in> set ?trs. \<exists>athlete. medal_athlete tr = Inr (medal, athlete)}"
    using keys by (simp only: fst_es set_map)
  have sub: "set scrapped_data \<subseteq> set ps"
  proof
    fix p assume p: "p \<in> set scrapped_data"
    obtain k v where kv: "p = (k, v)" by (cases p)
    from p dist have "map_of scrapped_data k = Some v"
      unfolding kv by simp
    then have "map_of (rev ps) k = Some v"
      unfolding d by (simp add: map_of_fold_put)
    then have "(k, v) \<in> set (rev ps)" by (rule map_of_SomeD)
    then show "p \<in> set ps" unfolding kv by simp
  qed
  have 3: "\<forall>(medal, v) \<in> set ?es. \<exists>tr \<in> set ?trs. \<exists>athlete.
                 medal_athlete tr = Inr (medal, athlete) \<and> v = JString athlete"
  proof (clarify)
    fix medal v assume "(medal, v) \<in> set ?es"
    then obtain athlete where v: "v = JString athlete"
      and "(medal, athlete) \<in> set scrapped_data"
      by auto
    with sub have "(medal, athlete) \<in> set ps" by blast
    then have "\<exists>tr \<in> set ?trs. medal_athlete tr = Inr (medal, athlete)"
      unfolding sp by simp
    with v show "\<exists>tr \<in> set ?trs. \<exists>athlete.
                 medal_athlete tr = Inr (medal, athlete) \<and> v = JString athlete"
      by blast
  qed
  have "cell5 scrapped_data f = [JObject ?es]"
    by (simp add: cell5_def dump_def open_w_def)
  with 1 2 3 show ?thesis by blast
qed

theorem cell5_one_entry_per_label_witness:
  "cell4 medal_table = ([(''Gold'', ''Kimino''), (''Silver'', ''Forsyth'')], None)
   \<and> (\<exists>entries.
         cell5 [(''Gold'', ''Kimino''), (''Silver'', ''Forsyth'')] [] = [JObject entries]
         \<and> distinct (map fst entries)
         \<and> set (map fst entries) =
               {medal. \<exists>tr \<in> set (xpath [''tr''] medal_table). \<exists>athlete.
                  medal_athlete tr = Inr (medal, athlete)})"
proof -
  have h: "cell4 medal_table = ([(''Gold'', ''Kimino''), (''Silver'', ''Forsyth'')], None)"
    by (rule cell4_medal_table)
  from cell5_one_entry_per_label [OF h, of "[]"] h show ?thesis by blast
qed

text \<open>
  Claim C8. When two or more rows give the same label, the dictionary of cell 4 holds
  under that label the name of the last such row: a row with the label, followed by
  rows none of which has it, decides the entry.
\<close>

theorem cell4_last_row_wins:
  assumes "cell4 table = (scrapped_data, None)"
    and "xpath [''tr''] table = before @ tr # after"
    and "medal_athlete tr = Inr (medal, athlete)"
    and "\<forall>tr' \<in> set after. \<forall>athlete'. medal_athlete tr' \<noteq> Inr (medal, athlete')"
  shows "map_of scrapped_data medal = Some athlete"
proof -
  from assms(1,2) obtain ps where ps: "map medal_athlete (before @ tr # after) = map Inr ps"
    and d: "scrapped_data = fold put ps []"
    unfolding cell4_def by (metis cell4_loop_fold)
  from ps have "map Inr ps =
      map medal_athlete before @ Inr (medal, athlete) # map medal_athlete after"
    using assms(3) by simp
  then obtain pb pa where split: "ps = pb @ (medal, athlete) # pa"
    and pa: "map medal_athlete after = map Inr pa"
    by (auto simp: map_eq_append_conv map_eq_Cons_conv)
  have "medal \<notin> fst ` set pa"
    using map_Inr_set [OF pa] assms(4) by force
  then have "map_of (rev pa) medal = None"
    by (simp add: map_of_eq_None_iff)
  then have "map_of (rev ps) medal = Some athlete"
    unfolding split by (simp add: map_add_def)
  then show ?thesis
    unfolding d by (simp add: map_of_fold_put)
qed

theorem cell4_last_row_wins_witness:
  "cell4 medal_table = ([(''Gold'', ''Kimino''), (''Silver'', ''Forsyth'')], None)
   \<and> medal_athlete (medal_row ''Gold'' ''Kimino'') = Inr (''Gold'', ''Kimino'')
   \<and> map_of [(''Gold'', ''Kimino''), (''Silver'', ''Forsyth'')] ''Gold'' = Some ''Kimino''"
proof -
  have h1: "cell4 medal_table = ([(''Gold'', ''Kimino''), (''Silver'', ''Forsyth'')], None)"
    by (rule cell4_medal_table)
  have h2: "xpath [''tr''] medal_table =
      [medal_row ''Gold'' ''Smith'', medal_row ''Silver'' ''Forsyth'']
      @ medal_row ''Gold'' ''Kimino'' # []"
    unfolding medal_table_rows by simp
  have h3: "medal_athlete (medal_row ''Gold'' ''Kimino'') = Inr (''Gold'', ''Kimino'')"
    by simp
  have h4: "\<forall>tr' \<in> set []. \<forall>athlete'. medal_athlete tr' \<noteq> Inr (''Gold'', athlete')"
    by simp
  from cell4_last_row_wins [OF h1 h2 h3 h4] h1 h3 show ?thesis by simp
qed

section \<open>The cells as wholes\<close>

lemma writerows_append: "writerows rs f = f @ rs"
  unfolding writerows_def by (induction rs arbitrary: f) (simp_all add: writerow_def)

lemma cell8_rows: "cell8 rs f = column_names # rs"
  by (simp add: cell8_def writerows_append writerow_def open_w_def)

lemma cell7_loop:
  "for_loop cell7_body trs rs =
     (rs @ map (\<lambda>(medal, athlete). [medal, athlete]) (prefix_records trs), first_error trs)"
  by (induction trs arbitrary: rs) (auto simp: cell7_body_def split: sum.splits)

lemma history_execute: "history (fst (execute sql params c)) = history c @ [(sql, params)]"
  by (auto simp: execute_def run_stmt_def write_db_def Let_def split: option.splits stmt.splits)

lemma history_commit: "history (fst (commit c)) = history c"
  by (auto simp: commit_def split: option.splits)

lemma cell10_result:
  "\<exists>c. cell10 file = (c, None) \<and> \<not> closed c \<and> txn c = None
     \<and> disk c = (case file ''results'' of
                   None \<Rightarrow> file(''results'' \<mapsto> \<lparr>columns = results_columns, rows = []\<rparr>)
                 | Some t \<Rightarrow> file)
     \<and> history c = [(db_table_cell10, [])]"
  by (cases "file ''results''")
    (simp_all add: cell10_def seq_def execute_def connect_def parse_db_table_cell10 run_stmt_def
      view_def write_db_def commit_def results_columns_def Let_def)

lemma cell14_result:
  "\<exists>c. cell14 file = (c, None) \<and> \<not> closed c \<and> txn c = None
     \<and> disk c = (case file ''high_jump_results'' of
                   None \<Rightarrow> file(''high_jump_results'' \<mapsto> \<lparr>columns = high_jump_columns, rows = []\<rparr>)
                 | Some t \<Rightarrow> file)
     \<and> history c = [(create_cell14, [])]"
  by (cases "file ''high_jump_results''")
    (simp_all add: cell14_def seq_def execute_def connect_def parse_create_cell14 run_stmt_def
      view_def write_db_def commit_def high_jump_columns_def Let_def)

lemma cell11_result:
  assumes "file ''results'' = Some t" "columns t = results_columns"
  shows "\<exists>c. cell11 table file = (c, first_error (xpath [''tr''] table)) \<and> \<not> closed c
     \<and> txn c = None
     \<and> disk c = file(''results'' \<mapsto>
          t\<lparr>rows := rows t @
               map results_row
                 (numbered (next_rowid (map fst (rows t))) (prefix_records (xpath [''tr''] table)))\<rparr>)
     \<and> history c = map results_call (prefix_records (xpath [''tr''] table))"
proof -
  have c: "\<not> closed (connect file)" "txn (connect file) = None"
    "disk (connect file) ''results'' = Some t"
    using assms(1) by (simp_all add: connect_def)
  from cell11_loop [OF c assms(2), of "xpath [''tr''] table"] show ?thesis
    unfolding cell11_def by (simp add: connect_def)
qed

lemma cell13_result:
  "file ''results'' = Some t \<Longrightarrow>
   \<exists>c. cell13 file = (c, None) \<and> fetchall c = map snd (rows t)"
  by (simp add: cell13_def seq_def execute_def connect_def parse_query_cell13 run_stmt_def
      view_def commit_def fetchall_def Let_def)

lemma cell16_result:
  "file ''high_jump_results'' = Some t \<Longrightarrow>
   \<exists>c. cell16 file = (c, None) \<and> fetchall c = map snd (rows t)"
  by (simp add: cell16_def seq_def execute_def connect_def parse_query_cell16 run_stmt_def
      view_def commit_def fetchall_def Let_def)

lemma cell15_result:
  assumes "\<not> closed c" "txn c = None" "disk c ''high_jump_results'' = Some t"
    "columns t = high_jump_columns" "batch_error fs = None"
  shows "\<exists>c'. cell15 fs c = (c', None)
     \<and> disk c' = (disk c)(''high_jump_results'' \<mapsto>
          t\<lparr>rows := rows t @
               map high_jump_row (numbered (next_rowid (map fst (rows t))) (batch_records fs))\<rparr>)
     \<and> history c' = history c @ map high_jump_call (batch_records fs)"
proof -
  have v: "view c ''high_jump_results'' = Some t"
    using assms(2,3) by (simp add: view_def)
  from cell15_files [OF assms(1) v assms(4), of fs] assms(5)
  obtain c1 where c1: "cell15_loop fs c = (c1, None)" "\<not> closed c1" "disk c1 = disk c"
    "view c1 = (view c)(''high_jump_results'' \<mapsto>
          t\<lparr>rows := rows t @
               map high_jump_row (numbered (next_rowid (map fst (rows t))) (batch_records fs))\<rparr>)"
    "history c1 = history c @ map high_jump_call (batch_records fs)"
    by auto
  have vc: "view c = disk c"
    using assms(2) by (simp add: view_def)
  show ?thesis
  proof (cases "txn c1")
    case None
    then have "view c1 = disk c1" by (simp add: view_def)
    with c1 None vc show ?thesis
      by (simp add: cell15_def seq_def commit_def close_def)
  next
    case (Some v)
    then have "view c1 = v" by (simp add: view_def)
    with c1 Some vc show ?thesis
      by (simp add: cell15_def seq_def commit_def close_def)
  qed
qed

lemma batch_error_None:
  "batch_error fs = None \<Longrightarrow>
   \<exists>tables. map (table_at 1) fs = map Inr tables
     \<and> batch_records fs =
         concat (map (\<lambda>table. List.map_filter rank_athlete (xpath [''tr''] table)) tables)"
proof (induction fs)
  case Nil
  then show ?case by simp
next
  case (Cons f fs)
  from Cons.prems obtain table where t: "table_at 1 f = Inr table" and e: "batch_error fs = None"
    by (cases "table_at 1 f") auto
  from Cons.IH [OF e] obtain tables where
    "map (table_at 1) fs = map Inr tables"
    "batch_records fs =
       concat (map (\<lambda>table. List.map_filter rank_athlete (xpath [''tr''] table)) tables)"
    by blast
  then have "map (table_at 1) (f # fs) = map Inr (table # tables)
     \<and> batch_records (f # fs) =
         concat (map (\<lambda>table. List.map_filter rank_athlete (xpath [''tr''] table)) (table # tables))"
    using t by simp
  then show ?case by blast
qed

lemma cell15_error:
  "cell15 fs c = (c', None) \<Longrightarrow> \<not> closed c \<Longrightarrow> view c ''high_jump_results'' = Some t \<Longrightarrow>
   columns t = high_jump_columns \<Longrightarrow> batch_error fs = None"
  using cell15_files [of c t fs]
  by (auto simp: cell15_def seq_def split: prod.splits option.splits)

lemma snd_results_row:
  "map snd (map results_row (numbered k records)) =
     map (\<lambda>(i, medal, athlete). [SqlInteger i, SqlText medal, SqlText athlete])
       (zip [k..k + int (length records) - 1] records)"
  unfolding numbered_zip by (simp add: results_row_def comp_def case_prod_unfold)

lemma snd_high_jump_row:
  "map snd (map high_jump_row (numbered k records)) =
     map (\<lambda>(rank, athlete). [SqlText rank, SqlText athlete]) records"
  by (induction records arbitrary: k) (simp_all add: high_jump_row_def case_prod_unfold)


section \<open>The CSV file\<close>

text \<open>
  Claim C5. When cell 7 has run over all rows, the file written by cell 8 starts with
  the record of the column names Medal and Athlete, and one record follows for every
  row of the table, holding the label and the name read from that row.
\<close>

theorem cell8_header_then_records:
  assumes "cell7 table = (csv_rows, None)"
  shows "\<exists>records. map medal_athlete (xpath [''tr''] table) = map Inr records
     \<and> cell8 csv_rows f =
         [''Medal'', ''Athlete''] # map (\<lambda>(medal, athlete). [medal, athlete]) records"
proof -
  let ?trs = "xpath [''tr''] table"
  from assms have e: "first_error ?trs = None"
    and r: "csv_rows = map (\<lambda>(medal, athlete). [medal, athlete]) (prefix_records ?trs)"
    by (simp_all add: cell7_def cell7_loop)
  from first_error_None [OF e] r show ?thesis
    by (auto simp: cell8_rows column_names_def)
qed

lemma cell7_medal_table:
  "cell7 medal_table =
     ([[''Gold'', ''Smith''], [''Silver'', ''Forsyth''], [''Gold'', ''Kimino'']], None)"
  unfolding cell7_def medal_table_rows by (simp add: cell7_body_def)

theorem cell8_header_then_records_witness:
  "cell7 medal_table =
     ([[''Gold'', ''Smith''], [''Silver'', ''Forsyth''], [''Gold'', ''Kimino'']], None)
   \<and> cell8 [[''Gold'', ''Smith''], [''Silver'', ''Forsyth''], [''Gold'', ''Kimino'']] [] =
       [[''Medal'', ''Athlete''],
        [''Gold'', ''Smith''], [''Silver'', ''Forsyth''], [''Gold'', ''Kimino'']]"
proof -
  have h: "cell7 medal_table =
     ([[''Gold'', ''Smith''], [''Silver'', ''Forsyth''], [''Gold'', ''Kimino'']], None)"
    by (rule cell7_medal_table)
  from cell8_header_then_records [OF h, of "[]"] obtain records where
    "cell8 [[''Gold'', ''Smith''], [''Silver'', ''Forsyth''], [''Gold'', ''Kimino'']] [] =
       [''Medal'', ''Athlete''] # map (\<lambda>(medal, athlete). [medal, athlete]) records"
    by blast
  then have "hd (cell8 [[''Gold'', ''Smith''], [''Silver'', ''Forsyth''], [''Gold'', ''Kimino'']] [])
      = [''Medal'', ''Athlete'']"
    by simp
  with h show ?thesis
    by (simp add: cell8_rows column_names_def)
qed

section \<open>Reading the results table back\<close>

text \<open>
  Claim C6. Cell 10 has made sure that the results table is there, the table has room
  for the rows of the page, and cell 11 has inserted the records of all rows, each
  followed by a commit. A new connection to the file (cell 13) then reads the rows that were in the table before, followed by the
  inserted records in the order of insertion, numbered consecutively from the next free
  rowid on; in a database that had no results table the numbers are 1 to n.
\<close>

theorem cell13_reads_back_inserted_rows:
  assumes "cell10 file = (c10, None)"
    and "disk c10 ''results'' = Some t" and "columns t = results_columns"
    and "cell11 table (disk c10) = (connection, None)"
    and "room_for (length (xpath [''tr''] table)) t"
  shows "\<exists>records first.
      map medal_athlete (xpath [''tr''] table) = map Inr records
    \<and> first = next_rowid (map fst (rows t))
    \<and> (file ''results'' = None \<longrightarrow> first = 1 \<and> rows t = [])
    \<and> snd (cell13 (disk connection)) = None
    \<and> fetchall (fst (cell13 (disk connection))) =
        map snd (rows t) @
        map (\<lambda>(i, medal, athlete). [SqlInteger i, SqlText medal, SqlText athlete])
          (zip [first..first + int (length records) - 1] records)"
proof -
  let ?trs = "xpath [''tr''] table"
  let ?k = "next_rowid (map fst (rows t))"
  let ?t' = "t\<lparr>rows := rows t @ map results_row (numbered ?k (prefix_records ?trs))\<rparr>"
  from cell11_result [of "disk c10" t table, OF assms(2,3)] assms(4)
  have e: "first_error ?trs = None" and d: "disk connection = (disk c10)(''results'' \<mapsto> ?t')"
    by auto
  from d have "disk connection ''results'' = Some ?t'" by simp
  from cell13_result [of "disk connection" "?t'", OF this] have
    f: "snd (cell13 (disk connection)) = None"
      "fetchall (fst (cell13 (disk connection))) = map snd (rows ?t')"
    by auto
  have fresh: "file ''results'' = None \<longrightarrow> ?k = 1 \<and> rows t = []"
  proof
    assume "file ''results'' = None"
    with cell10_result [of "file"] assms(1)
    have "disk c10 = file(''results'' \<mapsto> \<lparr>columns = results_columns, rows = []\<rparr>)"
      by auto
    with assms(2) have "rows t = []" by auto
    then show "?k = 1 \<and> rows t = []" by (simp add: next_rowid_def)
  qed
  have main: "fetchall (fst (cell13 (disk connection))) =
        map snd (rows t) @
        map (\<lambda>(i, medal, athlete). [SqlInteger i, SqlText medal, SqlText athlete])
          (zip [?k..?k + int (length (prefix_records ?trs)) - 1] (prefix_records ?trs))"
    unfolding f(2) by (simp add: snd_results_row del: map_map)
  show ?thesis
  proof (intro exI conjI)
    show "map medal_athlete ?trs = map Inr (prefix_records ?trs)"
      by (rule first_error_None [OF e])
    show "?k = next_rowid (map fst (rows t))" by (rule refl)
    show "file ''results'' = None \<longrightarrow> ?k = 1 \<and> rows t = []" by (rule fresh)
    show "snd (cell13 (disk connection)) = None" by (rule f(1))
    show "fetchall (fst (cell13 (disk connection))) =
        map snd (rows t) @
        map (\<lambda>(i, medal, athlete). [SqlInteger i, SqlText medal, SqlText athlete])
          (zip [?k..?k + int (length (prefix_records ?trs)) - 1] (prefix_records ?trs))"
      by (rule main)
  qed
qed


lemma medal_table_records:
  "map medal_athlete (xpath [''tr''] medal_table) =
     map Inr [(''Gold'', ''Smith''), (''Silver'', ''Forsyth''), (''Gold'', ''Kimino'')]"
  unfolding medal_table_rows by simp

lemma medal_table_first_error: "first_error (xpath [''tr''] medal_table) = None"
  using map_Inr_prefix_records [OF medal_table_records] by simp

lemma cell10_empty:
  "cell10 Map.empty = (fst (cell10 Map.empty), None)"
  "disk (fst (cell10 Map.empty)) ''results'' = Some \<lparr>columns = results_columns, rows = []\<rparr>"
  using cell10_result [of Map.empty] by auto

lemma cell11_medal_table_fresh:
  "cell11 medal_table (disk (fst (cell10 Map.empty))) =
     (fst (cell11 medal_table (disk (fst (cell10 Map.empty)))), None)"
  using cell11_result [of "disk (fst (cell10 Map.empty))"
      "\<lparr>columns = results_columns, rows = []\<rparr>" medal_table, OF cell10_empty(2)]
  by (auto simp: medal_table_first_error)

theorem cell13_reads_back_inserted_rows_witness:
  "cell10 Map.empty = (fst (cell10 Map.empty), None)
   \<and> room_for (length (xpath [''tr''] medal_table)) \<lparr>columns = results_columns, rows = []\<rparr>
   \<and> cell11 medal_table (disk (fst (cell10 Map.empty))) =
       (fst (cell11 medal_table (disk (fst (cell10 Map.empty)))), None)
   \<and> fetchall (fst (cell13 (disk (fst (cell11 medal_table (disk (fst (cell10 Map.empty))))))))
       = [[SqlInteger 1, SqlText ''Gold'', SqlText ''Smith''],
          [SqlInteger 2, SqlText ''Silver'', SqlText ''Forsyth''],
          [SqlInteger 3, SqlText ''Gold'', SqlText ''Kimino'']]"
proof -
  let ?t = "\<lparr>columns = results_columns, rows = []\<rparr>"
  have h3: "columns ?t = results_columns" by simp
  have h5: "room_for (length (xpath [''tr''] medal_table)) ?t"
    unfolding medal_table_rows by (simp add: room_for_def next_rowid_def largest_rowid_def)
  from cell13_reads_back_inserted_rows
    [OF cell10_empty(1) cell10_empty(2) h3 cell11_medal_table_fresh h5]
  obtain records first where
    r: "map medal_athlete (xpath [''tr''] medal_table) = map Inr records"
    and k: "first = next_rowid (map fst (rows ?t))"
    and f: "fetchall (fst (cell13 (disk (fst (cell11 medal_table (disk (fst (cell10 Map.empty))))))))
        = map snd (rows ?t) @
          map (\<lambda>(i, medal, athlete). [SqlInteger i, SqlText medal, SqlText athlete])
            (zip [first..first + int (length records) - 1] records)"
    by blast
  from map_Inr_prefix_records [OF r] map_Inr_prefix_records [OF medal_table_records]
  have "records = [(''Gold'', ''Smith''), (''Silver'', ''Forsyth''), (''Gold'', ''Kimino'')]"
    by simp
  moreover from k have "first = 1" by (simp add: next_rowid_def)
  ultimately show ?thesis
    using f cell10_empty(1) cell11_medal_table_fresh h5 by (simp add: upto_rec1)
qed

section \<open>Running a pass twice\<close>

lemma fst_results_row: "fst \<circ> results_row = fst"
  by (auto simp: fun_eq_iff results_row_def)

lemma results_two_runs:
  assumes "cell10 file = (c10, None)"
    and "disk c10 ''results'' = Some t" and "columns t = results_columns"
    and "cell11 table (disk c10) = (c11, None)"
    and "cell10 (disk c11) = (c10', None)"
    and "cell11 table (disk c10') = (c11', None)"
  shows "\<exists>records first.
      map medal_athlete (xpath [''tr''] table) = map Inr records
    \<and> first = next_rowid (map fst (rows t))
    \<and> fetchall (fst (cell13 (disk c11'))) =
        map snd (rows t) @
        map (\<lambda>(i, medal, athlete). [SqlInteger i, SqlText medal, SqlText athlete])
          (zip [first..first + 2 * int (length records) - 1] (records @ records))"
proof -
  let ?trs = "xpath [''tr''] table"
  let ?recs = "prefix_records ?trs"
  let ?k = "next_rowid (map fst (rows t))"
  let ?t1 = "t\<lparr>rows := rows t @ map results_row (numbered ?k ?recs)\<rparr>"
  let ?t2 = "?t1\<lparr>rows := rows ?t1 @
      map results_row (numbered (next_rowid (map fst (rows ?t1))) ?recs)\<rparr>"
  from cell11_result [of "disk c10" t table, OF assms(2,3)] assms(4)
  have e: "first_error ?trs = None" and d1: "disk c11 = (disk c10)(''results'' \<mapsto> ?t1)"
    by auto
  from d1 have s1: "disk c11 ''results'' = Some ?t1" by simp
  from cell10_result [of "disk c11"] assms(5) s1 have "disk c10' = disk c11"
    by auto
  with s1 have s1': "disk c10' ''results'' = Some ?t1" by simp
  have c1: "columns ?t1 = results_columns" using assms(3) by simp
  from cell11_result [of "disk c10'" ?t1 table, OF s1' c1] assms(6)
  have d2: "disk c11' = (disk c10')(''results'' \<mapsto> ?t2)"
    by auto
  then have s2: "disk c11' ''results'' = Some ?t2" by simp
  from cell13_result [of "disk c11'" ?t2, OF s2]
  have f: "fetchall (fst (cell13 (disk c11'))) = map snd (rows ?t2)"
    by auto
  have k1: "next_rowid (map fst (rows ?t1)) = ?k + int (length ?recs)"
    by (simp add: fst_results_row next_rowid_numbered)
  have "rows ?t2 = rows t @ map results_row (numbered ?k (?recs @ ?recs))"
    by (simp add: fst_results_row next_rowid_numbered numbered_append)
  then have "map snd (rows ?t2) =
      map snd (rows t) @ map snd (map results_row (numbered ?k (?recs @ ?recs)))"
    by simp
  also have "\<dots> = map snd (rows t) @
        map (\<lambda>(i, medal, athlete). [SqlInteger i, SqlText medal, SqlText athlete])
          (zip [?k..?k + 2 * int (length ?recs) - 1] (?recs @ ?recs))"
    unfolding snd_results_row by simp
  finally have main: "fetchall (fst (cell13 (disk c11'))) =
        map snd (rows t) @
        map (\<lambda>(i, medal, athlete). [SqlInteger i, SqlText medal, SqlText athlete])
          (zip [?k..?k + 2 * int (length ?recs) - 1] (?recs @ ?recs))"
    unfolding f .
  show ?thesis
  proof (intro exI conjI)
    show "map medal_athlete ?trs = map Inr ?recs"
      by (rule first_error_None [OF e])
    show "?k = next_rowid (map fst (rows t))" by (rule refl)
    show "fetchall (fst (cell13 (disk c11'))) =
        map snd (rows t) @
        map (\<lambda>(i, medal, athlete). [SqlInteger i, SqlText medal, SqlText athlete])
          (zip [?k..?k + 2 * int (length ?recs) - 1] (?recs @ ?recs))"
      by (rule main)
  qed
qed

lemma cell14_ready:
  assumes "cell14 file = (c14, None)"
  shows "\<not> closed c14" "txn c14 = None"
    "file ''high_jump_results'' = Some u \<Longrightarrow> disk c14 = file"
  using cell14_result [of "file"] assms by auto

lemma high_jump_two_runs:
  assumes "cell14 file = (c14, None)"
    and "disk c14 ''high_jump_results'' = Some u" and "columns u = high_jump_columns"
    and "cell15 html_files c14 = (c15, None)"
    and "cell14 (disk c15) = (c14', None)"
    and "cell15 html_files c14' = (c15', None)"
  shows "\<exists>tables records.
      map (table_at 1) html_files = map Inr tables
    \<and> records = map (\<lambda>(rank, athlete). [SqlText rank, SqlText athlete])
         (concat (map (\<lambda>table. List.map_filter rank_athlete (xpath [''tr''] table)) tables))
    \<and> fetchall (fst (cell16 (disk c15))) = map snd (rows u) @ records
    \<and> fetchall (fst (cell16 (disk c15'))) = map snd (rows u) @ records @ records"
proof -
  let ?recs = "batch_records html_files"
  let ?k = "next_rowid (map fst (rows u))"
  let ?u1 = "u\<lparr>rows := rows u @ map high_jump_row (numbered ?k ?recs)\<rparr>"
  let ?u2 = "?u1\<lparr>rows := rows ?u1 @
      map high_jump_row (numbered (next_rowid (map fst (rows ?u1))) ?recs)\<rparr>"
  note r14 = cell14_ready(1,2) [OF assms(1)]
  have v: "view c14 ''high_jump_results'' = Some u"
    using r14(2) assms(2) by (simp add: view_def)
  have e: "batch_error html_files = None"
    by (rule cell15_error [OF assms(4) r14(1) v assms(3)])
  from cell15_result [OF r14 assms(2,3) e] assms(4)
  have d1: "disk c15 = (disk c14)(''high_jump_results'' \<mapsto> ?u1)"
    by auto
  then have s1: "disk c15 ''high_jump_results'' = Some ?u1" by simp
  note r14' = cell14_ready [OF assms(5)]
  have "disk c14' = disk c15" by (rule r14'(3) [OF s1])
  with s1 have s1': "disk c14' ''high_jump_results'' = Some ?u1" by simp
  have c1: "columns ?u1 = high_jump_columns" using assms(3) by simp
  from cell15_result [OF r14'(1,2) s1' c1 e] assms(6)
  have d2: "disk c15' = (disk c14')(''high_jump_results'' \<mapsto> ?u2)"
    by auto
  then have s2: "disk c15' ''high_jump_results'' = Some ?u2" by simp
  from cell16_result [of "disk c15" ?u1, OF s1]
  have f1: "fetchall (fst (cell16 (disk c15))) = map snd (rows ?u1)"
    by auto
  from cell16_result [of "disk c15'" ?u2, OF s2]
  have f2: "fetchall (fst (cell16 (disk c15'))) = map snd (rows ?u2)"
    by auto
  from batch_error_None [OF e] obtain tables where
    t: "map (table_at 1) html_files = map Inr tables"
    and b: "?recs =
      concat (map (\<lambda>table. List.map_filter rank_athlete (xpath [''tr''] table)) tables)"
    by blast
  let ?rs = "map (\<lambda>(rank, athlete). [SqlText rank, SqlText athlete]) ?recs"
  have m1: "map snd (rows ?u1) = map snd (rows u) @ ?rs"
    using snd_high_jump_row [of ?k ?recs] by simp
  have m2: "map snd (rows ?u2) = map snd (rows u) @ ?rs @ ?rs"
    using snd_high_jump_row [of ?k ?recs]
      snd_high_jump_row [of "next_rowid (map fst (rows ?u1))" ?recs] by simp
  show ?thesis
  proof (intro exI conjI)
    show "map (table_at 1) html_files = map Inr tables" by (rule t)
    show "?rs = map (\<lambda>(rank, athlete). [SqlText rank, SqlText athlete])
         (concat (map (\<lambda>table. List.map_filter rank_athlete (xpath [''tr''] table)) tables))"
      unfolding b by (rule refl)
    show "fetchall (fst (cell16 (disk c15))) = map snd (rows u) @ ?rs"
      unfolding f1 by (rule m1)
    show "fetchall (fst (cell16 (disk c15'))) = map snd (rows u) @ ?rs @ ?rs"
      unfolding f2 by (rule m2)
  qed
qed

text \<open>
  Claim C7. The same pass run twice over the same table appends the records of the
  pass twice, when the table has room for the rows of two passes. For the results
  table: after cell 10 and cell 11 have run twice without an exception, the table reads as the rows it had before, followed by the records of
  the rows and by the same records once more, with consecutive rowids. For the
  high jump table: after cell 14 and cell 15 have run twice, the table reads as the
  rows it had before followed by the records of all files twice. No run removes or
  replaces a row.
\<close>

theorem second_run_duplicates_rows:
  "(cell10 db = (c10, None) \<and> disk c10 ''results'' = Some t \<and> columns t = results_columns
      \<and> cell11 table (disk c10) = (c11, None)
      \<and> cell10 (disk c11) = (c10', None) \<and> cell11 table (disk c10') = (c11', None)
      \<and> room_for (2 * length (xpath [''tr''] table)) t
    \<longrightarrow> (\<exists>records first.
          map medal_athlete (xpath [''tr''] table) = map Inr records
        \<and> first = next_rowid (map fst (rows t))
        \<and> fetchall (fst (cell13 (disk c11'))) =
            map snd (rows t) @
            map (\<lambda>(i, medal, athlete). [SqlInteger i, SqlText medal, SqlText athlete])
              (zip [first..first + 2 * int (length records) - 1] (records @ records))))
   \<and> (cell14 hdb = (c14, None) \<and> disk c14 ''high_jump_results'' = Some u
      \<and> columns u = high_jump_columns
      \<and> cell15 html_files c14 = (c15, None)
      \<and> cell14 (disk c15) = (c14', None) \<and> cell15 html_files c14' = (c15', None)
      \<and> room_for (2 * length (batch_records html_files)) u
    \<longrightarrow> (\<exists>tables records.
          map (table_at 1) html_files = map Inr tables
        \<and> records = map (\<lambda>(rank, athlete). [SqlText rank, SqlText athlete])
             (concat (map (\<lambda>table. List.map_filter rank_athlete (xpath [''tr''] table)) tables))
        \<and> fetchall (fst (cell16 (disk c15))) = map snd (rows u) @ records
        \<and> fetchall (fst (cell16 (disk c15'))) = map snd (rows u) @ records @ records))"
proof (intro conjI impI)
  assume "cell10 db = (c10, None) \<and> disk c10 ''results'' = Some t \<and> columns t = results_columns
      \<and> cell11 table (disk c10) = (c11, None)
      \<and> cell10 (disk c11) = (c10', None) \<and> cell11 table (disk c10') = (c11', None)
      \<and> room_for (2 * length (xpath [''tr''] table)) t"
  then have "cell10 db = (c10, None)" "disk c10 ''results'' = Some t"
    "columns t = results_columns" "cell11 table (disk c10) = (c11, None)"
    "cell10 (disk c11) = (c10', None)" "cell11 table (disk c10') = (c11', None)"
    by simp_all
  then show "\<exists>records first.
          map medal_athlete (xpath [''tr''] table) = map Inr records
        \<and> first = next_rowid (map fst (rows t))
        \<and> fetchall (fst (cell13 (disk c11'))) =
            map snd (rows t) @
            map (\<lambda>(i, medal, athlete). [SqlInteger i, SqlText medal, SqlText athlete])
              (zip [first..first + 2 * int (length records) - 1] (records @ records))"
    by (rule results_two_runs)
next
  assume "cell14 hdb = (c14, None) \<and> disk c14 ''high_jump_results'' = Some u
      \<and> columns u = high_jump_columns
      \<and> cell15 html_files c14 = (c15, None)
      \<and> cell14 (disk c15) = (c14', None) \<and> cell15 html_files c14' = (c15', None)
      \<and> room_for (2 * length (batch_records html_files)) u"
  then have "cell14 hdb = (c14, None)" "disk c14 ''high_jump_results'' = Some u"
    "columns u = high_jump_columns" "cell15 html_files c14 = (c15, None)"
    "cell14 (disk c15) = (c14', None)" "cell15 html_files c14' = (c15', None)"
    by simp_all
  then show "\<exists>tables records.
          map (table_at 1) html_files = map Inr tables
        \<and> records = map (\<lambda>(rank, athlete). [SqlText rank, SqlText athlete])
             (concat (map (\<lambda>table. List.map_filter rank_athlete (xpath [''tr''] table)) tables))
        \<and> fetchall (fst (cell16 (disk c15))) = map snd (rows u) @ records
        \<and> fetchall (fst (cell16 (disk c15'))) = map snd (rows u) @ records @ records"
    by (rule high_jump_two_runs)
qed


lemma cell10_snd: "cell10 file = (fst (cell10 file), None)"
  using cell10_result [of "file"] by auto

lemma cell14_snd: "cell14 file = (fst (cell14 file), None)"
  using cell14_result [of "file"] by auto

lemma cell10_table:
  "table_ready ''results'' results_columns file \<Longrightarrow>
   \<exists>t. disk (fst (cell10 file)) ''results'' = Some t \<and> columns t = results_columns
     \<and> (file ''results'' = None \<longrightarrow> rows t = [])
     \<and> (file ''results'' = Some t \<or> file ''results'' = None)"
  using cell10_result [of "file"]
  by (cases "file ''results''") (auto simp: table_ready_def)

lemma cell14_table:
  "table_ready ''high_jump_results'' high_jump_columns file \<Longrightarrow>
   \<exists>t. disk (fst (cell14 file)) ''high_jump_results'' = Some t \<and> columns t = high_jump_columns
     \<and> (file ''high_jump_results'' = None \<longrightarrow> rows t = [])"
  using cell14_result [of "file"]
  by (cases "file ''high_jump_results''") (auto simp: table_ready_def)

lemma table_at_page: "table_at 1 (page trs) = Inr [Element ''tbody'' trs]"
  by (simp add: table_at_def page_def all_tables_def index_def xpath.simps child_step_def)

lemma table_at_page_Suc: "table_at (Suc 0) (page trs) = Inr [Element ''tbody'' trs]"
  using table_at_page [of trs] by simp

lemma xpath_tr_tbody: "xpath [''tr''] [Element ''tbody'' trs] = filter (has_tag ''tr'') trs"
  by (simp add: xpath.simps child_step_def)

lemma rank_athlete_header_row: "rank_athlete header_row = None"
  by (simp add: rank_athlete_def header_row_def extract_text_def xpath.simps child_step_def)

lemma rank_athlete_medal_row: "rank_athlete (medal_row m a) = Some (strip m, strip a)"
  by (simp add: rank_athlete_def extract_defs)

lemma strip_examples:
  "strip ''Gold'' = ''Gold''" "strip '' Smith'' = ''Smith''" "strip ''Hames'' = ''Hames''"
  by (simp_all add: strip_def isspace_def)

lemma has_tag_rows: "has_tag ''tr'' header_row" "has_tag ''tr'' (medal_row m a)"
  by (simp_all add: header_row_def medal_row_def)

lemma pages_records:
  "batch_records [page_a, page_b] = [(''Gold'', ''Smith''), (''Gold'', ''Hames'')]"
  "batch_error [page_a, page_b] = None"
  by (simp_all add: page_a_def page_b_def table_at_page_Suc xpath_tr_tbody map_filter_simps
      rank_athlete_header_row rank_athlete_medal_row strip_examples has_tag_rows)


lemma cell11_snd:
  assumes "file ''results'' = Some t" "columns t = results_columns"
  shows "cell11 table file = (fst (cell11 table file), first_error (xpath [''tr''] table))"
    and "table_ready ''results'' results_columns (disk (fst (cell11 table file)))"
  using cell11_result [of "file" t table, OF assms] assms(2)
  by (auto simp: table_ready_def)

lemma cell15_snd:
  assumes "\<not> closed c" "txn c = None" "disk c ''high_jump_results'' = Some t"
    "columns t = high_jump_columns" "batch_error fs = None"
  shows "cell15 fs c = (fst (cell15 fs c), None)"
    and "table_ready ''high_jump_results'' high_jump_columns (disk (fst (cell15 fs c)))"
  using cell15_result [OF assms] assms(4)
  by (auto simp: table_ready_def)

lemma cell14_open: "\<not> closed (fst (cell14 file))" "txn (fst (cell14 file)) = None"
  using cell14_result [of "file"] by auto

lemma same_Inr: "map f xs = map Inr ys \<Longrightarrow> map f xs = map Inr zs \<Longrightarrow> ys = zs"
  by (simp add: inj_map_eq_map)

lemma pages_tables:
  "map (table_at 1) [page_a, page_b] =
     map Inr [[Element ''tbody'' [header_row, medal_row ''Gold'' '' Smith'']],
              [Element ''tbody'' [medal_row ''Gold'' ''Hames'']]]"
  by (simp add: page_a_def page_b_def table_at_page_Suc)

theorem second_run_duplicates_rows_witness:
  "room_for (2 * length (xpath [''tr''] medal_table)) \<lparr>columns = results_columns, rows = []\<rparr>
   \<and> room_for (2 * length (batch_records [page_a, page_b]))
       \<lparr>columns = high_jump_columns, rows = []\<rparr>
   \<and> fetchall (fst (cell13 (disk second_run))) =
     [[SqlInteger 1, SqlText ''Gold'', SqlText ''Smith''],
      [SqlInteger 2, SqlText ''Silver'', SqlText ''Forsyth''],
      [SqlInteger 3, SqlText ''Gold'', SqlText ''Kimino''],
      [SqlInteger 4, SqlText ''Gold'', SqlText ''Smith''],
      [SqlInteger 5, SqlText ''Silver'', SqlText ''Forsyth''],
      [SqlInteger 6, SqlText ''Gold'', SqlText ''Kimino'']]
   \<and> fetchall (fst (cell16 (disk second_batch))) =
     [[SqlText ''Gold'', SqlText ''Smith''], [SqlText ''Gold'', SqlText ''Hames''],
      [SqlText ''Gold'', SqlText ''Smith''], [SqlText ''Gold'', SqlText ''Hames'']]"
proof -
  let ?t0 = "\<lparr>columns = results_columns, rows = []\<rparr>"
  let ?u0 = "\<lparr>columns = high_jump_columns, rows = []\<rparr>"
  let ?pages = "[page_a, page_b]"
  have a2: "disk (fst (cell10 Map.empty)) ''results'' = Some ?t0"
    by (rule cell10_empty(2))
  have a3: "columns ?t0 = results_columns" by simp
  have a4: "cell11 medal_table (disk (fst (cell10 Map.empty))) = (first_run, None)"
    using cell11_medal_table_fresh by (simp add: first_run_def)
  have r1: "table_ready ''results'' results_columns (disk first_run)"
    unfolding first_run_def
    by (rule cell11_snd(2) [of "disk (fst (cell10 Map.empty))" ?t0 medal_table, OF a2 a3])
  from cell10_table [OF r1] obtain t1 where
    t1: "disk (fst (cell10 (disk first_run))) ''results'' = Some t1"
      "columns t1 = results_columns"
    by blast
  have a6: "cell11 medal_table (disk (fst (cell10 (disk first_run)))) = (second_run, None)"
    using cell11_snd(1) [of "disk (fst (cell10 (disk first_run)))" t1 medal_table, OF t1]
    by (simp add: second_run_def medal_table_first_error)
  have b2: "disk (fst (cell14 Map.empty)) ''high_jump_results'' = Some ?u0"
    using cell14_result [of Map.empty] by auto
  have b3: "columns ?u0 = high_jump_columns" by simp
  have b4: "cell15 ?pages (fst (cell14 Map.empty)) = (first_batch, None)"
    using cell15_snd(1) [OF cell14_open b2 b3 pages_records(2)]
    by (simp add: first_batch_def)
  have r2: "table_ready ''high_jump_results'' high_jump_columns (disk first_batch)"
    unfolding first_batch_def by (rule cell15_snd(2) [OF cell14_open b2 b3 pages_records(2)])
  from cell14_table [OF r2] obtain u1 where
    u1: "disk (fst (cell14 (disk first_batch))) ''high_jump_results'' = Some u1"
      "columns u1 = high_jump_columns"
    by blast
  have b6: "cell15 ?pages (fst (cell14 (disk first_batch))) = (second_batch, None)"
    using cell15_snd(1) [OF cell14_open u1 pages_records(2)]
    by (simp add: second_batch_def)
  note inst = second_run_duplicates_rows
    [where db = Map.empty and ?c10.0 = "fst (cell10 Map.empty)" and t = ?t0
       and table = medal_table and ?c11.0 = first_run
       and c10' = "fst (cell10 (disk first_run))" and c11' = second_run
       and hdb = Map.empty and ?c14.0 = "fst (cell14 Map.empty)" and u = ?u0
       and html_files = ?pages and ?c15.0 = first_batch
       and c14' = "fst (cell14 (disk first_batch))" and c15' = second_batch]
  have ra: "room_for (2 * length (xpath [''tr''] medal_table)) ?t0"
    unfolding medal_table_rows by (simp add: room_for_def next_rowid_def largest_rowid_def)
  have rb: "room_for (2 * length (batch_records ?pages)) ?u0"
    unfolding pages_records(1) by (simp add: room_for_def next_rowid_def largest_rowid_def)
  from inst a2 a3 a4 a6 cell10_snd ra obtain records first where
    r: "map medal_athlete (xpath [''tr''] medal_table) = map Inr records"
    and k: "first = next_rowid (map fst (rows ?t0))"
    and f: "fetchall (fst (cell13 (disk second_run))) =
        map snd (rows ?t0) @
        map (\<lambda>(i, medal, athlete). [SqlInteger i, SqlText medal, SqlText athlete])
          (zip [first..first + 2 * int (length records) - 1] (records @ records))"
    by blast
  have recs: "records = [(''Gold'', ''Smith''), (''Silver'', ''Forsyth''), (''Gold'', ''Kimino'')]"
    by (rule same_Inr [OF r medal_table_records])
  from k have first: "first = 1" by (simp add: next_rowid_def)
  have 1: "fetchall (fst (cell13 (disk second_run))) =
     [[SqlInteger 1, SqlText ''Gold'', SqlText ''Smith''],
      [SqlInteger 2, SqlText ''Silver'', SqlText ''Forsyth''],
      [SqlInteger 3, SqlText ''Gold'', SqlText ''Kimino''],
      [SqlInteger 4, SqlText ''Gold'', SqlText ''Smith''],
      [SqlInteger 5, SqlText ''Silver'', SqlText ''Forsyth''],
      [SqlInteger 6, SqlText ''Gold'', SqlText ''Kimino'']]"
    unfolding f recs first by (simp add: upto_rec1)
  from inst b2 b3 b4 b6 cell14_snd rb obtain tables hrecords where
    t: "map (table_at 1) ?pages = map Inr tables"
    and h: "hrecords = map (\<lambda>(rank, athlete). [SqlText rank, SqlText athlete])
         (concat (map (\<lambda>table. List.map_filter rank_athlete (xpath [''tr''] table)) tables))"
    and g: "fetchall (fst (cell16 (disk second_batch))) = map snd (rows ?u0) @ hrecords @ hrecords"
    by blast
  have tabs: "tables = [[Element ''tbody'' [header_row, medal_row ''Gold'' '' Smith'']],
              [Element ''tbody'' [medal_row ''Gold'' ''Hames'']]]"
    by (rule same_Inr [OF t pages_tables])
  have "hrecords = [[SqlText ''Gold'', SqlText ''Smith''], [SqlText ''Gold'', SqlText ''Hames'']]"
    unfolding h tabs
    by (simp add: xpath_tr_tbody map_filter_simps rank_athlete_header_row
        rank_athlete_medal_row strip_examples has_tag_rows)
  with g have 2: "fetchall (fst (cell16 (disk second_batch))) =
     [[SqlText ''Gold'', SqlText ''Smith''], [SqlText ''Gold'', SqlText ''Hames''],
      [SqlText ''Gold'', SqlText ''Smith''], [SqlText ''Gold'', SqlText ''Hames'']]"
    by simp
  from ra rb 1 2 show ?thesis by (intro conjI)
qed

section \<open>The order of the records\<close>

lemma batch_tables:
  "map (table_at 1) fs = map Inr tables \<Longrightarrow>
   batch_error fs = None
   \<and> batch_records fs =
       concat (map (\<lambda>table. List.map_filter rank_athlete (xpath [''tr''] table)) tables)"
proof (induction fs arbitrary: tables)
  case Nil
  then show ?case by simp
next
  case (Cons f fs)
  from Cons.prems obtain table rest where
    "tables = table # rest" "table_at 1 f = Inr table" "map (table_at 1) fs = map Inr rest"
    by (cases tables) auto
  with Cons.IH [of rest] show ?case by simp
qed







lemma pages_concat:
  "concat (map (\<lambda>table. List.map_filter rank_athlete (xpath [''tr''] table))
     [[Element ''tbody'' [header_row, medal_row ''Gold'' '' Smith'']],
      [Element ''tbody'' [medal_row ''Gold'' ''Hames'']]]) =
   [(''Gold'', ''Smith''), (''Gold'', ''Hames'')]"
  by (simp add: xpath_tr_tbody map_filter_simps rank_athlete_header_row
      rank_athlete_medal_row strip_examples has_tag_rows)


section \<open>Rows without the expected fields\<close>

lemma fst_except: "fst (except e r) = fst r"
  by (simp add: except_def)

lemma history_execute_commit:
  "history (fst (seq (execute sql params c) commit)) = history c @ [(sql, params)]"
proof (cases "execute sql params c")
  case (Pair c1 e)
  with history_execute [of sql params c] have "history c1 = history c @ [(sql, params)]"
    by simp
  with Pair show ?thesis
    using history_commit [of c1] by (cases e) (simp_all add: seq_def)
qed

lemma cell19_body_history:
  "history (fst (cell19_body tr connection)) =
     history connection @
     [(insert_cell19,
       [bind (extract_first (extract_text [''td''] tr)),
        bind (extract_first (extract_text [''td'', ''a''] tr)),
        bind (extract_first (extract_text [''td'', ''b''] tr))])]"
  by (simp add: cell19_body_def cell19_try_def Let_def fst_except history_execute_commit)

lemma heights_page_rows:
  "table_at 3 heights_page =
     Inr [Element ''tbody''
            [Element ''tr''
               [Element ''th'' [TextNode ''Rank''], Element ''th'' [TextNode ''Name''],
                Element ''th'' [TextNode ''Result'']],
             Element ''tr''
               [Element ''td'' [TextNode ''1''],
                Element ''td'' [Element ''a'' [TextNode ''Tim Forsyth'']],
                Element ''td'' [Element ''b'' [TextNode ''2.16'']]]]]"
  by (simp add: table_at_def heights_page_def all_tables_def index_def xpath.simps child_step_def)

lemma cell18_empty:
  "cell18 Map.empty =
     (\<lparr>disk = [''heights'' \<mapsto>
                 \<lparr>columns = [(''id'', IntegerPrimaryKey), (''rank'', TEXT), (''athlete'', TEXT),
                              (''height'', TEXT)],
                    rows = []\<rparr>],
        txn = None, closed = False, history = [(db_table_cell18, [])], fetched = []\<rparr>, None)"
  by (simp add: cell18_def seq_def execute_def connect_def parse_db_table_cell18 run_stmt_def
      view_def write_db_def commit_def Let_def)

lemma cell19_heights_page:
  "snd (cell19 heights_page (fst (cell18 Map.empty))) = None"
  "disk (fst (cell19 heights_page (fst (cell18 Map.empty)))) ''heights'' =
     Some \<lparr>columns = [(''id'', IntegerPrimaryKey), (''rank'', TEXT), (''athlete'', TEXT),
                       (''height'', TEXT)],
            rows = [(1, [SqlInteger 1, SqlNull, SqlNull, SqlNull]),
                    (2, [SqlInteger 2, SqlText ''1'', SqlText ''Tim Forsyth'', SqlText ''2.16''])]\<rparr>"
  by (simp_all add: cell19_def heights_page_rows cell18_empty xpath.simps child_step_def
      cell19_body_def cell19_try_def except_def seq_def execute_def parse_insert_cell19
      run_stmt_def view_def commit_def insert_row_def next_rowid_def extract_first_def
      extract_text_def bind_def Let_def)

lemma cell20_result:
  "db ''heights'' = Some t \<Longrightarrow>
   \<exists>c. cell20 db = (c, None) \<and> fetchall c = map snd (rows t)"
  by (simp add: cell20_def seq_def execute_def connect_def parse_query_cell20 run_stmt_def
      view_def commit_def fetchall_def Let_def)

text \<open>
  Claim C1, on the heights loop of cell 19. The body of the loop hands every row to
  \<^verbatim>\<open>execute\<close>, whatever the row holds: a field that is missing is bound as NULL, no
  exception is raised and the handler never runs. On a page whose heights table
  starts with a header row, the header row is stored as a row of NULLs with rowid 1.
  (The loop of cell 15 does leave such rows out: \<open>cell15_body_skip\<close>.)
\<close>

theorem cell19_inserts_rows_without_fields:
  "history (fst (cell19_body tr connection)) =
     history connection @
     [(insert_cell19,
       [bind (extract_first (extract_text [''td''] tr)),
        bind (extract_first (extract_text [''td'', ''a''] tr)),
        bind (extract_first (extract_text [''td'', ''b''] tr))])]
   \<and> snd (cell19 heights_page (fst (cell18 Map.empty))) = None
   \<and> fetchall (fst (cell20 (disk (fst (cell19 heights_page (fst (cell18 Map.empty))))))) =
       [[SqlInteger 1, SqlNull, SqlNull, SqlNull],
        [SqlInteger 2, SqlText ''1'', SqlText ''Tim Forsyth'', SqlText ''2.16'']]"
  using cell19_body_history [of tr connection] cell19_heights_page(1)
    cell20_result [of "disk (fst (cell19 heights_page (fst (cell18 Map.empty))))", OF cell19_heights_page(2)]
  by auto


section \<open>Where the commits are\<close>

lemma cell11_body_committed:
  assumes "\<not> closed c" "txn c = None" "disk c ''results'' = Some t"
    "columns t = results_columns" "medal_athlete tr = Inr (medal, athlete)"
  shows "\<exists>c'. cell11_body tr c = (c', None) \<and> txn c' = None
     \<and> table_rows (disk c') ''results'' =
         table_rows (disk c) ''results'' @
         [[SqlInteger (next_rowid (map fst (rows t))), SqlText medal, SqlText athlete]]"
proof -
  from cell11_body_row [OF assms] obtain c' where
    c: "cell11_body tr c = (c', None)" "txn c' = None"
    "disk c' = (disk c)(''results'' \<mapsto>
          t\<lparr>rows := rows t @ [results_row (next_rowid (map fst (rows t)), medal, athlete)]\<rparr>)"
    by blast
  have "table_rows (disk c') ''results'' =
         table_rows (disk c) ''results'' @
         [[SqlInteger (next_rowid (map fst (rows t))), SqlText medal, SqlText athlete]]"
    using assms(3) by (simp add: table_rows_def c(3) results_row_def)
  with c(1,2) show ?thesis by blast
qed

lemma cell19_body_committed:
  assumes "\<not> closed c" "txn c = None" "disk c ''heights'' = Some t"
    "columns t = heights_columns"
  shows "\<exists>c'. cell19_body tr c = (c', None) \<and> txn c' = None
     \<and> table_rows (disk c') ''heights'' =
         table_rows (disk c) ''heights'' @
         [[SqlInteger (next_rowid (map fst (rows t))),
           bind (extract_first (extract_text [''td''] tr)),
           bind (extract_first (extract_text [''td'', ''a''] tr)),
           bind (extract_first (extract_text [''td'', ''b''] tr))]]"
  using assms
  by (simp add: cell19_body_def cell19_try_def except_def execute_def parse_insert_cell19
      run_stmt_def view_def seq_def commit_def insert_row_def heights_columns_def
      table_rows_def Let_def)

lemma cell15_end:
  "cell15 fs c = (c', None) \<Longrightarrow> txn c' = None \<and> closed c'"
  by (auto simp: cell15_def seq_def commit_def close_def split: prod.splits option.splits if_splits)

lemma high_jump_pending:
  assumes "\<not> closed conn" "txn conn = None" "disk conn ''high_jump_results'' = Some u"
    "columns u = high_jump_columns" "map (table_at 1) html_files = map Inr tables"
  shows "\<exists>conn' conn''. cell15_loop html_files conn = (conn', None)
     \<and> disk conn' = disk conn
     \<and> pending_rows conn' ''high_jump_results'' =
         map (\<lambda>(rank, athlete). [SqlText rank, SqlText athlete])
           (concat (map (\<lambda>table. List.map_filter rank_athlete (xpath [''tr''] table)) tables))
     \<and> cell15 html_files conn = (conn'', None)
     \<and> txn conn'' = None
     \<and> table_rows (disk conn'') ''high_jump_results'' =
         table_rows (disk conn) ''high_jump_results'' @
         map (\<lambda>(rank, athlete). [SqlText rank, SqlText athlete])
           (concat (map (\<lambda>table. List.map_filter rank_athlete (xpath [''tr''] table)) tables))"
proof -
  let ?recs = "batch_records html_files"
  let ?k = "next_rowid (map fst (rows u))"
  let ?u1 = "u\<lparr>rows := rows u @ map high_jump_row (numbered ?k ?recs)\<rparr>"
  let ?rs = "map (\<lambda>(rank, athlete). [SqlText rank, SqlText athlete]) ?recs"
  note b = batch_tables [OF assms(5)]
  have v: "view conn ''high_jump_results'' = Some u" "view conn = disk conn"
    using assms(2,3) by (simp_all add: view_def)
  from cell15_files [OF assms(1) v(1) assms(4), of html_files] b
  obtain conn' where c: "cell15_loop html_files conn = (conn', None)"
    "disk conn' = disk conn"
    "view conn' = (view conn)(''high_jump_results'' \<mapsto> ?u1)"
    by auto
  have rows1: "map snd (rows ?u1) = map snd (rows u) @ ?rs"
    using snd_high_jump_row [of ?k ?recs] by simp
  have p: "pending_rows conn' ''high_jump_results'' = ?rs"
    using assms(3) rows1 by (simp add: pending_rows_def table_rows_def c(2,3))
  from cell15_result [OF assms(1-4) b [THEN conjunct1]]
  obtain conn'' where d: "cell15 html_files conn = (conn'', None)"
    "disk conn'' = (disk conn)(''high_jump_results'' \<mapsto> ?u1)"
    by blast
  have t: "table_rows (disk conn'') ''high_jump_results'' =
      table_rows (disk conn) ''high_jump_results'' @ ?rs"
    using assms(3) rows1 by (simp add: table_rows_def d(2))
  from cell15_end [OF d(1)] have e: "txn conn'' = None" by simp
  from c(1,2) p d(1) e t b show ?thesis
    by (simp only: b [THEN conjunct2]) blast
qed

text \<open>
  Claim C3, as the code has it. In the loops of cells 11 and 19 the commit follows
  every insert: on an open connection with no open transaction and a table with room
  for the row, a pass of the loop body that inserts a row ends with no open transaction
  and with the row in the file.
  In the batch of cell 15 the only commit stands after the loop over all files: when
  the loop has ended, the records of all files are uncommitted rows of one transaction
  and the file on disk is as before; the commit at the end of the cell then writes
  them all (the table having room for them).
\<close>

theorem commit_per_insert_or_per_batch:
  "(\<not> closed c \<and> txn c = None \<and> disk c ''results'' = Some t
       \<and> columns t = results_columns \<and> medal_athlete tr = Inr (medal, athlete)
       \<and> room_for 1 t \<longrightarrow>
      (\<exists>c'. cell11_body tr c = (c', None) \<and> txn c' = None
         \<and> table_rows (disk c') ''results'' =
             table_rows (disk c) ''results'' @
             [[SqlInteger (next_rowid (map fst (rows t))), SqlText medal, SqlText athlete]]))
   \<and> (\<not> closed c2 \<and> txn c2 = None \<and> disk c2 ''heights'' = Some t2
       \<and> columns t2 = heights_columns \<and> room_for 1 t2 \<longrightarrow>
      (\<exists>c'. cell19_body tr' c2 = (c', None) \<and> txn c' = None
         \<and> table_rows (disk c') ''heights'' =
             table_rows (disk c2) ''heights'' @
             [[SqlInteger (next_rowid (map fst (rows t2))),
               bind (extract_first (extract_text [''td''] tr')),
               bind (extract_first (extract_text [''td'', ''a''] tr')),
               bind (extract_first (extract_text [''td'', ''b''] tr'))]]))
   \<and> (\<not> closed conn \<and> txn conn = None \<and> disk conn ''high_jump_results'' = Some u
       \<and> columns u = high_jump_columns \<and> map (table_at 1) html_files = map Inr tables
       \<and> room_for (length (batch_records html_files)) u \<longrightarrow>
      (\<exists>conn' conn''. cell15_loop html_files conn = (conn', None)
         \<and> disk conn' = disk conn
         \<and> pending_rows conn' ''high_jump_results'' =
             map (\<lambda>(rank, athlete). [SqlText rank, SqlText athlete])
               (concat (map (\<lambda>table. List.map_filter rank_athlete (xpath [''tr''] table)) tables))
         \<and> cell15 html_files conn = (conn'', None)
         \<and> txn conn'' = None
         \<and> table_rows (disk conn'') ''high_jump_results'' =
             table_rows (disk conn) ''high_jump_results'' @
             map (\<lambda>(rank, athlete). [SqlText rank, SqlText athlete])
               (concat (map (\<lambda>table. List.map_filter rank_athlete (xpath [''tr''] table)) tables))))"
proof (intro conjI impI)
  assume "\<not> closed c \<and> txn c = None \<and> disk c ''results'' = Some t
       \<and> columns t = results_columns \<and> medal_athlete tr = Inr (medal, athlete)
       \<and> room_for 1 t"
  then have "\<not> closed c" "txn c = None" "disk c ''results'' = Some t"
    "columns t = results_columns" "medal_athlete tr = Inr (medal, athlete)"
    by simp_all
  then show "\<exists>c'. cell11_body tr c = (c', None) \<and> txn c' = None
         \<and> table_rows (disk c') ''results'' =
             table_rows (disk c) ''results'' @
             [[SqlInteger (next_rowid (map fst (rows t))), SqlText medal, SqlText athlete]]"
    by (rule cell11_body_committed)
next
  assume "\<not> closed c2 \<and> txn c2 = None \<and> disk c2 ''heights'' = Some t2
       \<and> columns t2 = heights_columns \<and> room_for 1 t2"
  then have "\<not> closed c2" "txn c2 = None" "disk c2 ''heights'' = Some t2"
    "columns t2 = heights_columns"
    by simp_all
  then show "\<exists>c'. cell19_body tr' c2 = (c', None) \<and> txn c' = None
         \<and> table_rows (disk c') ''heights'' =
             table_rows (disk c2) ''heights'' @
             [[SqlInteger (next_rowid (map fst (rows t2))),
               bind (extract_first (extract_text [''td''] tr')),
               bind (extract_first (extract_text [''td'', ''a''] tr')),
               bind (extract_first (extract_text [''td'', ''b''] tr'))]]"
    by (rule cell19_body_committed)
next
  assume "\<not> closed conn \<and> txn conn = None \<and> disk conn ''high_jump_results'' = Some u
       \<and> columns u = high_jump_columns \<and> map (table_at 1) html_files = map Inr tables
       \<and> room_for (length (batch_records html_files)) u"
  then have "\<not> closed conn" "txn conn = None" "disk conn ''high_jump_results'' = Some u"
    "columns u = high_jump_columns" "map (table_at 1) html_files = map Inr tables"
    by simp_all
  then show "\<exists>conn' conn''. cell15_loop html_files conn = (conn', None)
         \<and> disk conn' = disk conn
         \<and> pending_rows conn' ''high_jump_results'' =
             map (\<lambda>(rank, athlete). [SqlText rank, SqlText athlete])
               (concat (map (\<lambda>table. List.map_filter rank_athlete (xpath [''tr''] table)) tables))
         \<and> cell15 html_files conn = (conn'', None)
         \<and> txn conn'' = None
         \<and> table_rows (disk conn'') ''high_jump_results'' =
             table_rows (disk conn) ''high_jump_results'' @
             map (\<lambda>(rank, athlete). [SqlText rank, SqlText athlete])
               (concat (map (\<lambda>table. List.map_filter rank_athlete (xpath [''tr''] table)) tables))"
    by (rule high_jump_pending)
qed

lemma cell14_empty:
  "\<not> closed (fst (cell14 Map.empty))" "txn (fst (cell14 Map.empty)) = None"
  "disk (fst (cell14 Map.empty)) ''high_jump_results'' =
     Some \<lparr>columns = high_jump_columns, rows = []\<rparr>"
  using cell14_result [of Map.empty] by auto

text \<open>
  Claim C3, as stated: a commit after each file, so that inserts of two files are
  never pending together. After the loop of cell 15 over the two example pages, a row
  of the first page and a row of the second page are pending in the same transaction.
\<close>

theorem commit_after_each_file_counterexample:
  "pending_rows (fst (cell15_loop [page_a, page_b] (fst (cell14 Map.empty)))) ''high_jump_results''
     = [[SqlText ''Gold'', SqlText ''Smith''], [SqlText ''Gold'', SqlText ''Hames'']]
   \<and> batch_records [page_a] = [(''Gold'', ''Smith'')]
   \<and> batch_records [page_b] = [(''Gold'', ''Hames'')]"
proof -
  have c: "columns \<lparr>columns = high_jump_columns, rows = []\<rparr> = high_jump_columns" by simp
  from high_jump_pending [OF cell14_empty c pages_tables]
  have "pending_rows (fst (cell15_loop [page_a, page_b] (fst (cell14 Map.empty)))) ''high_jump_results''
     = [[SqlText ''Gold'', SqlText ''Smith''], [SqlText ''Gold'', SqlText ''Hames'']]"
    unfolding pages_concat by auto
  moreover have "batch_records [page_a] = [(''Gold'', ''Smith'')]"
    "batch_records [page_b] = [(''Gold'', ''Hames'')]"
    by (simp_all add: page_a_def page_b_def table_at_page_Suc xpath_tr_tbody map_filter_simps
      rank_athlete_header_row rank_athlete_medal_row strip_examples has_tag_rows)
  ultimately show ?thesis by simp
qed

theorem commit_per_insert_or_per_batch_witness:
  "room_for 1 \<lparr>columns = results_columns, rows = []\<rparr>
   \<and> room_for 1 \<lparr>columns = heights_columns, rows = []\<rparr>
   \<and> room_for (length (batch_records [page_a, page_b]))
       \<lparr>columns = high_jump_columns, rows = []\<rparr>
   \<and> table_rows (disk (fst (cell11_body (medal_row ''Gold'' ''Smith'') (fst (cell10 Map.empty)))))
      ''results'' = [[SqlInteger 1, SqlText ''Gold'', SqlText ''Smith'']]
   \<and> txn (fst (cell11_body (medal_row ''Gold'' ''Smith'') (fst (cell10 Map.empty)))) = None
   \<and> table_rows (disk (fst (cell19_body header_row (fst (cell18 Map.empty))))) ''heights''
       = [[SqlInteger 1, SqlNull, SqlNull, SqlNull]]
   \<and> txn (fst (cell19_body header_row (fst (cell18 Map.empty)))) = None
   \<and> table_rows (disk (fst (cell15 [page_a, page_b] (fst (cell14 Map.empty))))) ''high_jump_results''
       = [[SqlText ''Gold'', SqlText ''Smith''], [SqlText ''Gold'', SqlText ''Hames'']]"
proof -
  let ?t0 = "\<lparr>columns = results_columns, rows = []\<rparr>"
  let ?h0 = "\<lparr>columns = heights_columns, rows = []\<rparr>"
  let ?u0 = "\<lparr>columns = high_jump_columns, rows = []\<rparr>"
  let ?tables = "[[Element ''tbody'' [header_row, medal_row ''Gold'' '' Smith'']],
              [Element ''tbody'' [medal_row ''Gold'' ''Hames'']]]"
  note inst = commit_per_insert_or_per_batch
    [where c = "fst (cell10 Map.empty)" and t = ?t0 and tr = "medal_row ''Gold'' ''Smith''"
       and medal = "''Gold''" and athlete = "''Smith''"
       and ?c2.0 = "fst (cell18 Map.empty)" and ?t2.0 = ?h0 and tr' = header_row
       and conn = "fst (cell14 Map.empty)" and u = ?u0 and html_files = "[page_a, page_b]"
       and tables = ?tables]
  have a: "\<not> closed (fst (cell10 Map.empty))" "txn (fst (cell10 Map.empty)) = None"
    using cell10_result [of Map.empty] by auto
  have a3: "columns ?t0 = results_columns" by simp
  have a4: "medal_athlete (medal_row ''Gold'' ''Smith'') = Inr (''Gold'', ''Smith'')" by simp
  have b: "\<not> closed (fst (cell18 Map.empty))" "txn (fst (cell18 Map.empty)) = None"
    "disk (fst (cell18 Map.empty)) ''heights'' = Some ?h0"
    by (simp_all add: cell18_empty heights_columns_def)
  have b3: "columns ?h0 = heights_columns" by simp
  have c: "columns ?u0 = high_jump_columns" by simp
  have r1: "room_for 1 ?t0" "room_for 1 ?h0"
    by (simp_all add: room_for_def next_rowid_def largest_rowid_def)
  have r2: "room_for (length (batch_records [page_a, page_b])) ?u0"
    unfolding pages_records(1) by (simp add: room_for_def next_rowid_def largest_rowid_def)
  from inst a cell10_empty(2) a3 a4 r1(1) obtain c1 where
    "cell11_body (medal_row ''Gold'' ''Smith'') (fst (cell10 Map.empty)) = (c1, None)"
    "txn c1 = None"
    "table_rows (disk c1) ''results'' =
       table_rows (disk (fst (cell10 Map.empty))) ''results'' @
       [[SqlInteger (next_rowid (map fst (rows ?t0))), SqlText ''Gold'', SqlText ''Smith'']]"
    by blast
  then have 1: "table_rows (disk (fst (cell11_body (medal_row ''Gold'' ''Smith'')
        (fst (cell10 Map.empty))))) ''results'' = [[SqlInteger 1, SqlText ''Gold'', SqlText ''Smith'']]"
    and 2: "txn (fst (cell11_body (medal_row ''Gold'' ''Smith'') (fst (cell10 Map.empty)))) = None"
    using cell10_empty(2) by (simp_all add: table_rows_def next_rowid_def)
  from inst b b3 r1(2) obtain c3 where
    "cell19_body header_row (fst (cell18 Map.empty)) = (c3, None)"
    "txn c3 = None"
    "table_rows (disk c3) ''heights'' =
       table_rows (disk (fst (cell18 Map.empty))) ''heights'' @
       [[SqlInteger (next_rowid (map fst (rows ?h0))),
         bind (extract_first (extract_text [''td''] header_row)),
         bind (extract_first (extract_text [''td'', ''a''] header_row)),
         bind (extract_first (extract_text [''td'', ''b''] header_row))]]"
    by blast
  then have 3: "table_rows (disk (fst (cell19_body header_row (fst (cell18 Map.empty)))))
        ''heights'' = [[SqlInteger 1, SqlNull, SqlNull, SqlNull]]"
    and 4: "txn (fst (cell19_body header_row (fst (cell18 Map.empty)))) = None"
    using b(3)
    by (simp_all add: table_rows_def next_rowid_def header_row_def extract_text_def
        xpath.simps child_step_def extract_first_def bind_def)
  from inst cell14_empty c pages_tables r2 obtain conn'' where
    "cell15 [page_a, page_b] (fst (cell14 Map.empty)) = (conn'', None)"
    "table_rows (disk conn'') ''high_jump_results'' =
         table_rows (disk (fst (cell14 Map.empty))) ''high_jump_results'' @
         map (\<lambda>(rank, athlete). [SqlText rank, SqlText athlete])
           (concat (map (\<lambda>table. List.map_filter rank_athlete (xpath [''tr''] table)) ?tables))"
    by blast
  then have 5: "table_rows (disk (fst (cell15 [page_a, page_b] (fst (cell14 Map.empty)))))
        ''high_jump_results''
       = [[SqlText ''Gold'', SqlText ''Smith''], [SqlText ''Gold'', SqlText ''Hames'']]"
    unfolding pages_concat using cell14_empty(3) by (simp add: table_rows_def)
  from r1 r2 1 2 3 4 5 show ?thesis by (intro conjI)
qed

section \<open>The tables and the inserts\<close>

lemma cell18_result:
  "\<exists>c. cell18 db = (c, None) \<and> \<not> closed c \<and> txn c = None
     \<and> disk c = (case db ''heights'' of
                   None \<Rightarrow> db(''heights'' \<mapsto>
                     \<lparr>columns = [(''id'', IntegerPrimaryKey), (''rank'', TEXT),
                                  (''athlete'', TEXT), (''height'', TEXT)],
                        rows = []\<rparr>)
                 | Some t \<Rightarrow> db)
     \<and> history c = [(db_table_cell18, [])]"
  by (cases "db ''heights''")
    (simp_all add: cell18_def seq_def execute_def connect_def parse_db_table_cell18 run_stmt_def
      view_def write_db_def commit_def Let_def)

lemma for_loop_calls:
  assumes "\<And>x s. \<exists>calls. history (fst (body x s)) = history s @ calls \<and> (\<forall>call \<in> set calls. P call)"
  shows "\<exists>calls. history (fst (for_loop body xs s)) = history s @ calls
           \<and> (\<forall>call \<in> set calls. P call)"
proof (induction xs arbitrary: s)
  case Nil
  then show ?case by simp
next
  case (Cons x xs)
  from assms [of x s] obtain calls1 where
    1: "history (fst (body x s)) = history s @ calls1" "\<forall>call \<in> set calls1. P call"
    by blast
  obtain s1 e where b: "body x s = (s1, e)" by (cases "body x s")
  show ?case
  proof (cases e)
    case None
    from Cons.IH [of s1] obtain calls2 where
      2: "history (fst (for_loop body xs s1)) = history s1 @ calls2"
        "\<forall>call \<in> set calls2. P call"
      by blast
    have "history (fst (for_loop body (x # xs) s)) = history s @ (calls1 @ calls2)"
      using 1(1) 2(1) b None by simp
    moreover have "\<forall>call \<in> set (calls1 @ calls2). P call"
      using 1(2) 2(2) by auto
    ultimately show ?thesis by blast
  next
    case (Some err)
    with 1 b show ?thesis by auto
  qed
qed

lemma no_calls: "\<exists>calls. history c = history c @ calls \<and> (\<forall>call \<in> set calls. P call)"
  by (rule exI [of _ "[]"]) simp

lemma one_call:
  "history c' = history c @ [call] \<Longrightarrow> P call \<Longrightarrow>
   \<exists>calls. history c' = history c @ calls \<and> (\<forall>call \<in> set calls. P call)"
  by (rule exI [of _ "[call]"]) simp

lemma cell11_body_calls:
  "\<exists>calls. history (fst (cell11_body tr c)) = history c @ calls
     \<and> (\<forall>call \<in> set calls. results_insert call)"
proof (cases "medal_athlete tr")
  case (Inl e)
  then show ?thesis by (simp add: cell11_body_def)
next
  case (Inr p)
  have "history (fst (cell11_body tr c)) =
      history c @ [(query_cell11, [SqlText (fst p), SqlText (snd p)])]"
    using Inr by (simp add: cell11_body_def case_prod_unfold history_execute_commit)
  moreover have "results_insert (query_cell11, [SqlText (fst p), SqlText (snd p)])"
    by (simp add: results_insert_def query_cell11_def)
  ultimately show ?thesis by (rule one_call)
qed

lemma cell11_calls:
  "\<forall>call \<in> set (history (fst (cell11 table db))). results_insert call"
  using for_loop_calls [of cell11_body results_insert "xpath [''tr''] table" "connect db",
      OF cell11_body_calls]
  by (auto simp: cell11_def connect_def)

lemma cell15_body_calls:
  "\<exists>calls. history (fst (cell15_body tr c)) = history c @ calls
     \<and> (\<forall>call \<in> set calls. high_jump_insert call)"
proof (cases "rank_athlete tr")
  case None
  then show ?thesis by (simp add: cell15_body_skip)
next
  case (Some p)
  have "history (fst (cell15_body tr c)) =
      history c @ [(insert_cell15, [SqlText (fst p), SqlText (snd p)])]"
    using Some cell15_body_insert [of tr "fst p" "snd p" c] by (simp add: history_execute)
  moreover have "high_jump_insert (insert_cell15, [SqlText (fst p), SqlText (snd p)])"
    by (simp add: high_jump_insert_def insert_cell15_def)
  ultimately show ?thesis by (rule one_call)
qed

lemma cell15_file_calls:
  "\<exists>calls. history (fst (cell15_file response c)) = history c @ calls
     \<and> (\<forall>call \<in> set calls. high_jump_insert call)"
proof (cases "table_at 1 response")
  case (Inl e)
  then show ?thesis by (simp add: cell15_file_def)
next
  case (Inr table)
  then show ?thesis
    using for_loop_calls [of cell15_body high_jump_insert "xpath [''tr''] table" c,
        OF cell15_body_calls]
    by (simp add: cell15_file_def)
qed

lemma cell15_loop_calls:
  "\<forall>call \<in> set (drop (length (history conn)) (history (fst (cell15_loop html_files conn)))).
     high_jump_insert call"
  using for_loop_calls [of cell15_file high_jump_insert html_files conn, OF cell15_file_calls]
  by (auto simp: cell15_loop_def)

lemma cell19_body_calls:
  "\<exists>calls. history (fst (cell19_body tr c)) = history c @ calls
     \<and> (\<forall>call \<in> set calls. heights_insert call)"
proof -
  have "heights_insert (insert_cell19,
       [bind (extract_first (extract_text [''td''] tr)),
        bind (extract_first (extract_text [''td'', ''a''] tr)),
        bind (extract_first (extract_text [''td'', ''b''] tr))])"
    by (auto simp: heights_insert_def insert_cell19_def)
  with cell19_body_history [of tr c] show ?thesis by (rule one_call)
qed

lemma cell19_calls:
  "\<forall>call \<in> set (drop (length (history connection)) (history (fst (cell19 response connection)))).
     heights_insert call"
proof (cases "table_at 3 response")
  case (Inl e)
  then show ?thesis by (simp add: cell19_def)
next
  case (Inr table1)
  then show ?thesis
    using for_loop_calls [of cell19_body heights_insert "xpath [''tr''] table1" connection,
        OF cell19_body_calls]
    by (auto simp: cell19_def)
qed

lemma create_fresh:
  "db ''results'' = None \<Longrightarrow>
   disk (fst (cell10 db)) ''results'' =
     Some \<lparr>columns = [(''id'', IntegerPrimaryKey), (''medal'', TEXT), (''athlete'', TEXT)],
            rows = []\<rparr>"
  "db ''heights'' = None \<Longrightarrow>
   disk (fst (cell18 db)) ''heights'' =
     Some \<lparr>columns = [(''id'', IntegerPrimaryKey), (''rank'', TEXT), (''athlete'', TEXT),
                       (''height'', TEXT)],
            rows = []\<rparr>"
  "db ''high_jump_results'' = None \<Longrightarrow>
   disk (fst (cell14 db)) ''high_jump_results'' =
     Some \<lparr>columns = [(''rank'', TEXT), (''athlete'', TEXT)], rows = []\<rparr>"
  using cell10_result [of db] cell18_result [of db] cell14_result [of db]
  by (auto simp: results_columns_def high_jump_columns_def)

lemma create_existing:
  "db ''results'' = Some t \<Longrightarrow> disk (fst (cell10 db)) = db"
  "db ''heights'' = Some t \<Longrightarrow> disk (fst (cell18 db)) = db"
  "db ''high_jump_results'' = Some t \<Longrightarrow> disk (fst (cell14 db)) = db"
  using cell10_result [of db] cell18_result [of db] cell14_result [of db]
  by auto

text \<open>
  Claim C2, as the code has it. In a database without the table, cell 10 creates
  results and cell 18 creates heights with an identity column followed by text columns,
  and cell 14 creates the high jump table with the two text columns \<open>rank\<close> and
  \<open>athlete\<close> only. Each of the three cells leaves a database that has the table as it
  is. Every call of \<^verbatim>\<open>execute\<close> made by the loops of cells 11, 15 and 19 is a
  parameterized insert: the SQL text is the fixed text of the cell and the values of the
  row are passed as parameters.
\<close>

theorem tables_and_parameterized_inserts:
  "(db ''results'' = None \<longrightarrow>
      disk (fst (cell10 db)) ''results'' =
        Some \<lparr>columns = [(''id'', IntegerPrimaryKey), (''medal'', TEXT), (''athlete'', TEXT)],
               rows = []\<rparr>)
   \<and> (db ''heights'' = None \<longrightarrow>
      disk (fst (cell18 db)) ''heights'' =
        Some \<lparr>columns = [(''id'', IntegerPrimaryKey), (''rank'', TEXT), (''athlete'', TEXT),
                          (''height'', TEXT)],
               rows = []\<rparr>)
   \<and> (db ''high_jump_results'' = None \<longrightarrow>
      disk (fst (cell14 db)) ''high_jump_results'' =
        Some \<lparr>columns = [(''rank'', TEXT), (''athlete'', TEXT)], rows = []\<rparr>)
   \<and> (db1 ''results'' = Some t1 \<longrightarrow> disk (fst (cell10 db1)) = db1)
   \<and> (db2 ''heights'' = Some t2 \<longrightarrow> disk (fst (cell18 db2)) = db2)
   \<and> (db3 ''high_jump_results'' = Some t3 \<longrightarrow> disk (fst (cell14 db3)) = db3)
   \<and> (\<forall>call \<in> set (history (fst (cell11 table db4))). results_insert call)
   \<and> (\<forall>call \<in> set (drop (length (history conn))
                          (history (fst (cell15_loop html_files conn)))).
        high_jump_insert call)
   \<and> (\<forall>call \<in> set (drop (length (history connection))
                          (history (fst (cell19 response connection)))).
        heights_insert call)"
  using create_fresh [of db] create_existing(1) [of db1 t1] create_existing(2) [of db2 t2]
    create_existing(3) [of db3 t3] cell11_calls [of table db4]
    cell15_loop_calls [of conn html_files] cell19_calls [of connection response]
  by (intro conjI impI) assumption+

text \<open>
  Claim C2, as stated: every table has an identity column. The high jump table that
  cell 14 creates has none, and a row read back from it has two values and no
  identity.
\<close>

theorem identity_column_counterexample:
  "map_option has_identity_column (disk (fst (cell14 Map.empty)) ''high_jump_results'')
     = Some False
   \<and> fetchall (fst (cell16 (disk first_batch))) =
       [[SqlText ''Gold'', SqlText ''Smith''], [SqlText ''Gold'', SqlText ''Hames'']]"
proof -
  let ?u0 = "\<lparr>columns = high_jump_columns, rows = []\<rparr>"
  have 1: "map_option has_identity_column (disk (fst (cell14 Map.empty)) ''high_jump_results'')
     = Some False"
    by (simp add: cell14_empty(3) has_identity_column_def high_jump_columns_def)
  have c: "columns ?u0 = high_jump_columns" by simp
  from cell15_result [OF cell14_empty c pages_records(2)]
  have "disk first_batch ''high_jump_results'' =
      Some (?u0\<lparr>rows := rows ?u0 @
        map high_jump_row (numbered (next_rowid (map fst (rows ?u0)))
          (batch_records [page_a, page_b]))\<rparr>)"
    by (auto simp: first_batch_def)
  from cell16_result [of "disk first_batch", OF this [unfolded pages_records(1)]]
  have 2: "fetchall (fst (cell16 (disk first_batch))) =
       [[SqlText ''Gold'', SqlText ''Smith''], [SqlText ''Gold'', SqlText ''Hames'']]"
    by (auto simp: high_jump_row_def)
  from 1 2 show ?thesis by (rule conjI)
qed

lemma cell19_heights_page_history:
  "history (fst (cell19 heights_page (fst (cell18 Map.empty)))) =
     [(db_table_cell18, []),
      (insert_cell19, [SqlNull, SqlNull, SqlNull]),
      (insert_cell19, [SqlText ''1'', SqlText ''Tim Forsyth'', SqlText ''2.16''])]"
  by (simp add: cell19_def heights_page_rows cell18_empty xpath.simps child_step_def
      cell19_body_def cell19_try_def except_def seq_def execute_def parse_insert_cell19
      run_stmt_def view_def commit_def insert_row_def next_rowid_def extract_first_def
      extract_text_def bind_def Let_def)

lemma first_run_state:
  "history first_run =
     [(query_cell11, [SqlText ''Gold'', SqlText ''Smith'']),
      (query_cell11, [SqlText ''Silver'', SqlText ''Forsyth'']),
      (query_cell11, [SqlText ''Gold'', SqlText ''Kimino''])]"
  "\<exists>t. disk first_run ''results'' = Some t"
  using cell11_result [of "disk (fst (cell10 Map.empty))"
      "\<lparr>columns = results_columns, rows = []\<rparr>" medal_table, OF cell10_empty(2)]
    map_Inr_prefix_records [OF medal_table_records]
  by (auto simp: first_run_def results_call_def)

lemma first_batch_state:
  "history (fst (cell15_loop [page_a, page_b] (fst (cell14 Map.empty)))) =
     [(create_cell14, []),
      (insert_cell15, [SqlText ''Gold'', SqlText ''Smith'']),
      (insert_cell15, [SqlText ''Gold'', SqlText ''Hames''])]"
  "history (fst (cell14 Map.empty)) = [(create_cell14, [])]"
  "\<exists>t. disk first_batch ''high_jump_results'' = Some t"
proof -
  let ?u0 = "\<lparr>columns = high_jump_columns, rows = []\<rparr>"
  have c: "columns ?u0 = high_jump_columns" by simp
  have v: "view (fst (cell14 Map.empty)) ''high_jump_results'' = Some ?u0"
    using cell14_empty by (simp add: view_def)
  show h: "history (fst (cell14 Map.empty)) = [(create_cell14, [])]"
    using cell14_result [of Map.empty] by auto
  from cell15_files [OF cell14_empty(1) v c, of "[page_a, page_b]"]
  show "history (fst (cell15_loop [page_a, page_b] (fst (cell14 Map.empty)))) =
     [(create_cell14, []),
      (insert_cell15, [SqlText ''Gold'', SqlText ''Smith'']),
      (insert_cell15, [SqlText ''Gold'', SqlText ''Hames''])]"
    unfolding pages_records h by (auto simp: high_jump_call_def)
  from cell15_result [OF cell14_empty c pages_records(2)]
  show "\<exists>t. disk first_batch ''high_jump_results'' = Some t"
    by (auto simp: first_batch_def)
qed

theorem tables_and_parameterized_inserts_witness:
  "disk (fst (cell10 Map.empty)) ''results'' =
     Some \<lparr>columns = [(''id'', IntegerPrimaryKey), (''medal'', TEXT), (''athlete'', TEXT)],
            rows = []\<rparr>
   \<and> disk (fst (cell18 Map.empty)) ''heights'' =
     Some \<lparr>columns = [(''id'', IntegerPrimaryKey), (''rank'', TEXT), (''athlete'', TEXT),
                       (''height'', TEXT)],
            rows = []\<rparr>
   \<and> disk (fst (cell14 Map.empty)) ''high_jump_results'' =
     Some \<lparr>columns = [(''rank'', TEXT), (''athlete'', TEXT)], rows = []\<rparr>
   \<and> disk (fst (cell10 (disk first_run))) = disk first_run
   \<and> disk (fst (cell18 (disk (fst (cell18 Map.empty))))) = disk (fst (cell18 Map.empty))
   \<and> disk (fst (cell14 (disk first_batch))) = disk first_batch
   \<and> results_insert (query_cell11, [SqlText ''Gold'', SqlText ''Smith''])
   \<and> high_jump_insert (insert_cell15, [SqlText ''Gold'', SqlText ''Smith''])
   \<and> heights_insert (insert_cell19, [SqlNull, SqlNull, SqlNull])"
proof -
  from first_run_state(2) obtain t1 where t1: "disk first_run ''results'' = Some t1" ..
  from first_batch_state(3) obtain t3 where
    t3: "disk first_batch ''high_jump_results'' = Some t3" ..
  obtain t2 where t2: "disk (fst (cell18 Map.empty)) ''heights'' = Some t2"
    by (simp add: cell18_empty)
  note inst = tables_and_parameterized_inserts
    [where db = Map.empty and ?db1.0 = "disk first_run" and ?t1.0 = t1
       and ?db2.0 = "disk (fst (cell18 Map.empty))" and ?t2.0 = t2
       and ?db3.0 = "disk first_batch" and ?t3.0 = t3
       and table = medal_table and ?db4.0 = "disk (fst (cell10 Map.empty))"
       and conn = "fst (cell14 Map.empty)" and html_files = "[page_a, page_b]"
       and connection = "fst (cell18 Map.empty)" and response = heights_page]
  have e: "Map.empty ''results'' = None" "Map.empty ''heights'' = None"
    "Map.empty ''high_jump_results'' = None"
    by simp_all
  have m1: "(query_cell11, [SqlText ''Gold'', SqlText ''Smith''])
      \<in> set (history (fst (cell11 medal_table (disk (fst (cell10 Map.empty))))))"
    using first_run_state(1) by (simp add: first_run_def)
  have m2: "(insert_cell15, [SqlText ''Gold'', SqlText ''Smith''])
      \<in> set (drop (length (history (fst (cell14 Map.empty))))
            (history (fst (cell15_loop [page_a, page_b] (fst (cell14 Map.empty))))))"
    unfolding first_batch_state(1,2) by simp
  have m3: "(insert_cell19, [SqlNull, SqlNull, SqlNull])
      \<in> set (drop (length (history (fst (cell18 Map.empty))))
            (history (fst (cell19 heights_page (fst (cell18 Map.empty))))))"
    unfolding cell19_heights_page_history by (simp add: cell18_empty)
  from inst e t1 t2 t3 m1 m2 m3 show ?thesis
    by (intro conjI) blast+
qed

end
